theory Spec2Isabelle
  imports Main "HOL-Library.AList"
begin

section \<open>Values, exceptions and the outside world\<close>

text \<open>
  Python values as far as the resource core handles them: the JSON values a wire parser
  returns, tuples (primary-key values), sets of names (the dirty set), references to
  heap objects (instances, wrappers) and model classes by name.  A dict is an association
  list with distinct keys.
\<close>

datatype val =
    VNone
  | VBool bool
  | VInt int
  | VStr string
  | VList "val list"
  | VTuple "val list"
  | VDict "(string \<times> val) list"
  | VSet "string list"
  | VRef nat
  | VClass string

datatype error =
    AttributeError
  | KeyError
  | TypeError
  | ValueError
  | IndexError
  | AssertionError
  | RecursionError
  | ConnectionError
  | PyrestoInvalidRestMethodException
  | PyrestoInvalidOperationException
  | PyrestoServerResponseException string

datatype 'a res = Ok 'a | Raise error

text \<open>Truth value testing of Python (\<open>if data:\<close>, \<open>if not data:\<close>).\<close>

fun truthy :: "val \<Rightarrow> bool" where
  "truthy VNone = False"
| "truthy (VBool b) = b"
| "truthy (VInt i) = (i \<noteq> 0)"
| "truthy (VStr s) = (s \<noteq> [])"
| "truthy (VList xs) = (xs \<noteq> [])"
| "truthy (VTuple xs) = (xs \<noteq> [])"
| "truthy (VDict kvs) = (kvs \<noteq> [])"
| "truthy (VSet ks) = (ks \<noteq> [])"
| "truthy (VRef r) = True"
| "truthy (VClass c) = True"

text \<open>
  The augmented assignment \<open>data += more\<close> of \<open>_rest_call\<close>: list extension by any
  iterable, concatenation of strings and of tuples, addition of numbers (a bool counts
  as 0 or 1); everything else raises \<open>TypeError\<close>.
\<close>

definition chars_of :: "string \<Rightarrow> val list" where
  "chars_of s = map (\<lambda>c. VStr [c]) s"

fun py_iadd :: "val \<Rightarrow> val \<Rightarrow> val res" where
  "py_iadd (VList xs) (VList ys) = Ok (VList (xs @ ys))"
| "py_iadd (VList xs) (VTuple ys) = Ok (VList (xs @ ys))"
| "py_iadd (VList xs) (VStr s) = Ok (VList (xs @ chars_of s))"
| "py_iadd (VList xs) (VDict kvs) = Ok (VList (xs @ map (VStr \<circ> fst) kvs))"
| "py_iadd (VList xs) (VSet ks) = Ok (VList (xs @ map VStr ks))"
| "py_iadd (VTuple xs) (VTuple ys) = Ok (VTuple (xs @ ys))"
| "py_iadd (VStr s) (VStr t) = Ok (VStr (s @ t))"
| "py_iadd (VInt i) (VInt j) = Ok (VInt (i + j))"
| "py_iadd (VInt i) (VBool b) = Ok (VInt (i + (if b then 1 else 0)))"
| "py_iadd (VBool a) (VInt j) = Ok (VInt ((if a then 1 else 0) + j))"
| "py_iadd (VBool a) (VBool b) = Ok (VInt ((if a then 1 else 0) + (if b then 1 else 0)))"
| "py_iadd _ _ = Raise TypeError"

text \<open>Decimal rendering of a status code, as \<open>'{0:d}'.format\<close> prints it.\<close>

definition digit_char :: "nat \<Rightarrow> char" where
  "digit_char d = ''0123456789'' ! d"

fun dec_nat :: "nat \<Rightarrow> string" where
  "dec_nat n = (if n < 10 then [digit_char n] else dec_nat (n div 10) @ [digit_char (n mod 10)])"

declare dec_nat.simps [simp del]

definition dec_int :: "int \<Rightarrow> string" where
  "dec_int i = (if i < 0 then CHR ''-'' # dec_nat (nat (- i)) else dec_nat (nat i))"

record response =
  status_code :: int
  resp_text :: string
  headers :: "(string \<times> string) list"

record request =
  rq_method :: string
  rq_url :: string
  rq_kwargs :: "(string \<times> val) list"

text \<open>
  The collaborators that are not code of the repository are parameters: the transport
  \<open>requests.request\<close> (its answer may depend on the requests made before), \<open>urljoin\<close>
  and \<open>str.format\<close> on a path template.
\<close>

record env =
  transport :: "request list \<Rightarrow> request \<Rightarrow> error + response"
  urljoin :: "val \<Rightarrow> string \<Rightarrow> string"
  format :: "string \<Rightarrow> (string \<times> val) list \<Rightarrow> error + string"

text \<open>
  What the class namespace holds under a name, as far as \<open>issubclass(getattr(cls, item),
  Model)\<close> tells the cases apart: a relation descriptor (read on the class it yields the
  target model class), another class, or a value that is no class (\<open>issubclass\<close> raises).
\<close>

datatype ckind = CRelation | COtherClass | CNonClass

record cls =
  c_name :: string
  c_mro :: "string list"
  c_url_base :: val
  c_path :: val
  c_pk :: "string list"
  c_auth :: val
  c_update_method :: string
  c_parser :: "string \<Rightarrow> error + val"
  c_serializer :: "val \<Rightarrow> error + val"
  c_continuator :: "response \<Rightarrow> string option"
  c_dict :: "(string \<times> ckind) list"
  c_get :: bool

record obj =
  ocls :: cls
  odict :: "(string \<times> val) list"

text \<open>
  Heap objects: a model instance, the eager wrapper \<open>WrappedList(iterable, wrapper)\<close> and
  the streaming wrapper \<open>LazyList(wrapper, fetcher)\<close>.  The closures \<open>wrapper\<close> and
  \<open>fetcher\<close> are given by what they capture: the relation's model class, the owner and
  (for the fetcher) the url.
\<close>

datatype hobj =
    Inst obj
  | WrappedList "val list" cls nat
  | LazyList cls nat string

record world =
  heap :: "(nat \<times> hobj) list"
  calls :: "request list"

section \<open>The pagination engine: \<open>Model._rest_call\<close>\<close>

definition ALLOWED_HTTP_METHODS :: "string set" where
  "ALLOWED_HTTP_METHODS = {''GET'', ''POST'', ''PUT'', ''DELETE'', ''PATCH''}"

definition lower_char :: "char \<Rightarrow> char" where
  "lower_char c =
     (case map_of (zip ''ABCDEFGHIJKLMNOPQRSTUVWXYZ'' ''abcdefghijklmnopqrstuvwxyz'') c of
        Some d \<Rightarrow> d
      | None \<Rightarrow> c)"

definition lower :: "string \<Rightarrow> string" where
  "lower s = map lower_char s"

definition server_response_msg :: "int \<Rightarrow> string" where
  "server_response_msg code = ''Server response not OK. Response code: '' @ dec_int code"

definition has_continuation :: "string option \<Rightarrow> bool" where
  "has_continuation u = (case u of None \<Rightarrow> False | Some s \<Rightarrow> s \<noteq> [])"

text \<open>
  The recursion of \<open>_rest_call\<close> on the continuation is bounded by the interpreter's
  recursion limit only; the first argument is that limit.  The recursive call passes
  \<open>**kwargs\<close> with the new url, so \<open>method\<close> and \<open>fetch_all\<close> take their defaults
  again.  The result is the named tuple \<open>(data, continuation_url)\<close>.
\<close>

fun rest_call ::
  "nat \<Rightarrow> env \<Rightarrow> cls \<Rightarrow> string \<Rightarrow> string \<Rightarrow> bool \<Rightarrow> (string \<times> val) list \<Rightarrow> world
     \<Rightarrow> (val \<times> string option) res \<times> world" where
  "rest_call 0 e c url method fetch_all kwargs w = (Raise RecursionError, w)"
| "rest_call (Suc n) e c url method fetch_all kwargs w =
     (let url' = urljoin e (c_url_base c) url in
      if c_auth c \<noteq> VNone \<and> map_of kwargs ''auth'' = None then (Raise AttributeError, w)
      else if method \<notin> ALLOWED_HTTP_METHODS then (Raise PyrestoInvalidRestMethodException, w)
      else
        let rq = \<lparr>rq_method = lower method, rq_url = url', rq_kwargs = kwargs\<rparr>;
            w1 = w\<lparr>calls := calls w @ [rq]\<rparr>
        in case transport e (calls w) rq of
             Inl err \<Rightarrow> (Raise err, w1)
           | Inr response \<Rightarrow>
               if 200 \<le> status_code response \<and> status_code response < 300 then
                 let continuation_url = c_continuator c response;
                     response_data = resp_text response
                 in case (if response_data \<noteq> [] then c_parser c response_data else Inr VNone) of
                      Inl err \<Rightarrow> (Raise err, w1)
                    | Inr data \<Rightarrow>
                        if has_continuation continuation_url then
                          if fetch_all then
                            (case rest_call n e c (the continuation_url) ''GET'' True kwargs w1 of
                               (Raise err, w2) \<Rightarrow> (Raise err, w2)
                             | (Ok (rest, _), w2) \<Rightarrow>
                                 (case py_iadd data rest of
                                    Raise err \<Rightarrow> (Raise err, w2)
                                  | Ok data' \<Rightarrow> (Ok (data', None), w2)))
                          else (Ok (data, continuation_url), w1)
                        else (Ok (data, None), w1)
               else (Raise (PyrestoServerResponseException
                             (server_response_msg (status_code response))), w1))"


section \<open>Instances: attribute storage\<close>

definition inst_of :: "world \<Rightarrow> nat \<Rightarrow> obj option" where
  "inst_of w r = (case map_of (heap w) r of Some (Inst ob) \<Rightarrow> Some ob | _ \<Rightarrow> None)"

definition put_inst :: "world \<Rightarrow> nat \<Rightarrow> obj \<Rightarrow> world" where
  "put_inst w r ob = w\<lparr>heap := AList.update r (Inst ob) (heap w)\<rparr>"

definition fresh_ref :: "world \<Rightarrow> nat" where
  "fresh_ref w = Suc (fold max (map fst (heap w)) 0)"

text \<open>
  The data attributes that the class body of \<open>Model\<close> defines, with the values a concrete
  resource class gives them.  The private names \<open>__footprint\<close> and \<open>__pk_vals\<close> are
  mangled by Python to \<open>_Model__footprint\<close> and \<open>_Model__pk_vals\<close>.
\<close>

definition class_attr :: "cls \<Rightarrow> string \<Rightarrow> val option" where
  "class_attr c name =
     (if name = ''_update_method'' then Some (VStr (c_update_method c))
      else if name = ''_Model__footprint'' then Some VNone
      else if name = ''_Model__pk_vals'' then Some VNone
      else if name = ''_changed'' then Some VNone
      else if name = ''_url_base'' then Some (c_url_base c)
      else if name = ''_path'' then Some (c_path c)
      else if name = ''_auth'' then Some (c_auth c)
      else if name = ''_pk'' then Some (VTuple (map VStr (c_pk c)))
      else if name = ''_fetched'' then Some (VBool False)
      else if name = ''_get_params'' then Some (VDict [])
      else None)"

text \<open>
  Ordinary lookup of a data attribute: the instance dictionary, then the class.  Names of
  methods and of relation descriptors are not attribute names of the model, and
  \<open>_pk\<close> is always read from the class.
\<close>

definition attr_of :: "obj \<Rightarrow> string \<Rightarrow> val option" where
  "attr_of ob name =
     (case map_of (odict ob) name of Some v \<Rightarrow> Some v | None \<Rightarrow> class_attr (ocls ob) name)"

definition slot :: "obj \<Rightarrow> string \<Rightarrow> val" where
  "slot ob name = (case attr_of ob name of Some v \<Rightarrow> v | None \<Rightarrow> VNone)"

definition startswith_underscore :: "string \<Rightarrow> bool" where
  "startswith_underscore key = (case key of [] \<Rightarrow> False | c # _ \<Rightarrow> c = CHR ''_'')"

text \<open>\<open>len(value)\<close> and \<open>tuple(value)\<close>: the elements of a sized iterable.\<close>

fun seq_of :: "val \<Rightarrow> val list option" where
  "seq_of (VTuple xs) = Some xs"
| "seq_of (VList xs) = Some xs"
| "seq_of (VStr s) = Some (chars_of s)"
| "seq_of (VDict kvs) = Some (map (VStr \<circ> fst) kvs)"
| "seq_of (VSet ks) = Some (map VStr ks)"
| "seq_of _ = None"

text \<open>\<open>self._changed.add(key)\<close>: only a set has \<open>add\<close>.\<close>

definition changed_add :: "obj \<Rightarrow> string \<Rightarrow> obj res" where
  "changed_add ob key =
     (case slot ob ''_changed'' of
        VSet ks \<Rightarrow>
          Ok (ob\<lparr>odict := AList.update ''_changed''
                (VSet (if key \<in> set ks then ks else ks @ [key])) (odict ob)\<rparr>)
      | _ \<Rightarrow> Raise AttributeError)"

text \<open>
  The setter of the property \<open>_pk_vals\<close>; its assignment to \<open>self.__pk_vals\<close> goes
  through \<open>__setattr__\<close> with an underscore name, which stores the value.
\<close>

definition pk_vals_setter :: "obj \<Rightarrow> val \<Rightarrow> obj res" where
  "pk_vals_setter ob v =
     (case seq_of v of
        None \<Rightarrow> Raise TypeError
      | Some xs \<Rightarrow>
          if length xs = length (c_pk (ocls ob)) then
            Ok (ob\<lparr>odict := AList.update ''_Model__pk_vals'' (VTuple xs) (odict ob)\<rparr>)
          else Raise ValueError)"

text \<open>
  \<open>Model.__setattr__\<close>, followed by the assignment of \<open>object\<close>: a property with a
  setter runs it, a property without one refuses, any other name lands in the instance
  dictionary.
\<close>

definition setattr_m :: "world \<Rightarrow> nat \<Rightarrow> string \<Rightarrow> val \<Rightarrow> unit res \<times> world" where
  "setattr_m w r key v =
     (case inst_of w r of
        None \<Rightarrow> (Raise AttributeError, w)
      | Some ob \<Rightarrow>
          (case (if \<not> startswith_underscore key then changed_add ob key else Ok ob) of
             Raise err \<Rightarrow> (Raise err, w)
           | Ok ob1 \<Rightarrow>
               if key = ''_pk_vals'' then
                 (case pk_vals_setter ob1 v of
                    Raise err \<Rightarrow> (Raise err, put_inst w r ob1)
                  | Ok ob2 \<Rightarrow> (Ok (), put_inst w r ob2))
               else if key = ''_id'' \<or> key = ''_footprint'' \<or> key = ''_current_path'' then
                 (Raise AttributeError, put_inst w r ob1)
               else (Ok (), put_inst w r (ob1\<lparr>odict := AList.update key v (odict ob1)\<rparr>))))"

text \<open>\<open>Model.__delattr__\<close>.\<close>

definition delattr_m :: "world \<Rightarrow> nat \<Rightarrow> string \<Rightarrow> unit res \<times> world" where
  "delattr_m w r item = (Raise PyrestoInvalidOperationException, w)"

text \<open>
  The loop over \<open>set(cls.__dict__) & set(data)\<close> of \<open>__init__\<close> and \<open>__fetch\<close>: a name
  that the class binds to a relation is moved to the key prefixed with two underscores.
  The set is visited in the order of the class namespace.  The dictionary reached so far
  is returned with an exception too.
\<close>

fun rename_overlaps ::
  "(string \<times> ckind) list \<Rightarrow> string list \<Rightarrow> (string \<times> val) list \<Rightarrow> unit res \<times> (string \<times> val) list" where
  "rename_overlaps [] keys d = (Ok (), d)"
| "rename_overlaps ((item, k) # cd) keys d =
     (if item \<in> set keys then
        (case k of
           CNonClass \<Rightarrow> (Raise TypeError, d)
         | COtherClass \<Rightarrow> rename_overlaps cd keys d
         | CRelation \<Rightarrow>
             (case map_of d item of
                None \<Rightarrow> (Raise KeyError, d)
              | Some v \<Rightarrow>
                  rename_overlaps cd keys (AList.update (''__'' @ item) v (AList.delete item d))))
      else rename_overlaps cd keys d)"

text \<open>\<open>dict.update(other)\<close> for a mapping \<open>other\<close>.\<close>

definition dict_update :: "(string \<times> val) list \<Rightarrow> (string \<times> val) list \<Rightarrow> (string \<times> val) list" where
  "dict_update d other = fold (\<lambda>(k, v). AList.update k v) other d"

text \<open>
  \<open>Model.__init__(self, parent=None, **kwargs)\<close> on a newly allocated instance of
  \<open>c\<close>; the result is the reference to it.
\<close>

definition init_m :: "world \<Rightarrow> cls \<Rightarrow> val \<Rightarrow> (string \<times> val) list \<Rightarrow> nat res \<times> world" where
  "init_m w c parent kwargs =
     (let r = fresh_ref w;
          d1 = dict_update [(''_parent'', parent)] kwargs
      in case rename_overlaps (c_dict c) (map fst kwargs) d1 of
           (Raise err, d2) \<Rightarrow> (Raise err, put_inst w r \<lparr>ocls = c, odict = d2\<rparr>)
         | (Ok u, d2) \<Rightarrow>
             (Ok r, put_inst w r \<lparr>ocls = c, odict = AList.update ''_changed'' (VSet []) d2\<rparr>))"

text \<open>
  A call \<open>cls(**data)\<close> or \<open>cls(parent=p, **data)\<close>: the keyword arguments are bound to the
  parameters \<open>self\<close> and \<open>parent\<close> first.
\<close>

definition construct :: "world \<Rightarrow> cls \<Rightarrow> val option \<Rightarrow> val \<Rightarrow> nat res \<times> world" where
  "construct w c parent_arg data =
     (case data of
        VDict kvs \<Rightarrow>
          if map_of kvs ''self'' \<noteq> None then (Raise TypeError, w)
          else (case parent_arg of
                  Some p \<Rightarrow>
                    if map_of kvs ''parent'' \<noteq> None then (Raise TypeError, w)
                    else init_m w c p kvs
                | None \<Rightarrow>
                    (case map_of kvs ''parent'' of
                       Some p \<Rightarrow> init_m w c p (AList.delete ''parent'' kvs)
                     | None \<Rightarrow> init_m w c VNone kvs))
      | _ \<Rightarrow> (Raise TypeError, w))"

section \<open>Instances: lazy attributes and paths\<close>

text \<open>Sequencing of steps that may raise: an exception ends the sequence.\<close>

definition bind :: "'a res \<times> world \<Rightarrow> ('a \<Rightarrow> world \<Rightarrow> 'b res \<times> world) \<Rightarrow> 'b res \<times> world" where
  "bind m f = (case m of (Raise err, w) \<Rightarrow> (Raise err, w) | (Ok v, w) \<Rightarrow> f v w)"

text \<open>A handler for \<open>AttributeError\<close> alone.\<close>

definition catch_attr :: "'a res \<times> world \<Rightarrow> (world \<Rightarrow> 'a res \<times> world) \<Rightarrow> 'a res \<times> world" where
  "catch_attr m h =
     (case m of
        (Raise err, w) \<Rightarrow> if err = AttributeError then h w else (Raise err, w)
      | (Ok v, w) \<Rightarrow> (Ok v, w))"

text \<open>\<open>dict(zip(keys, values))\<close>.\<close>

definition dict_zip :: "string list \<Rightarrow> val list \<Rightarrow> (string \<times> val) list" where
  "dict_zip ks vs = dict_update [] (zip ks vs)"

text \<open>The subscript \<open>[-1]\<close>.\<close>

fun last_item :: "val \<Rightarrow> val res" where
  "last_item (VTuple xs) = (if xs = [] then Raise IndexError else Ok (last xs))"
| "last_item (VList xs) = (if xs = [] then Raise IndexError else Ok (last xs))"
| "last_item (VStr s) = (if s = [] then Raise IndexError else Ok (VStr [last s]))"
| "last_item (VDict kvs) = Raise KeyError"
| "last_item _ = Raise TypeError"

text \<open>Lookup of a name that is no property: instance dictionary, then class.\<close>

definition plain_lookup :: "obj \<Rightarrow> string \<Rightarrow> world \<Rightarrow> val res \<times> world" where
  "plain_lookup ob name w =
     (case attr_of ob name of Some v \<Rightarrow> (Ok v, w) | None \<Rightarrow> (Raise AttributeError, w))"

text \<open>
  The body of \<open>Model.__fetch\<close> once \<open>self._current_path\<close> has been evaluated: the call
  \<open>self._rest_call(url=..., auth=self._auth)\<close>, and for truthy data the merge into the
  instance dictionary, the renaming of relation keys and \<open>self._fetched = True\<close>.
\<close>

definition fetch_merge :: "world \<Rightarrow> nat \<Rightarrow> val \<Rightarrow> val res \<times> world" where
  "fetch_merge w r data =
     (if truthy data then
        (case inst_of w r of
           None \<Rightarrow> (Raise AttributeError, w)
         | Some ob \<Rightarrow>
             (case data of
                VDict kvs \<Rightarrow>
                  (case rename_overlaps (c_dict (ocls ob)) (map fst kvs)
                          (dict_update (odict ob) kvs) of
                     (Raise err, d) \<Rightarrow> (Raise err, put_inst w r (ob\<lparr>odict := d\<rparr>))
                   | (Ok u, d) \<Rightarrow>
                       bind (setattr_m (put_inst w r (ob\<lparr>odict := d\<rparr>)) r ''_fetched'' (VBool True))
                         (\<lambda>u w1. (Ok VNone, w1)))
              | _ \<Rightarrow> (Raise TypeError, w)))
      else (Ok VNone, w))"

definition fetch_from :: "nat \<Rightarrow> env \<Rightarrow> world \<Rightarrow> nat \<Rightarrow> val \<Rightarrow> val res \<times> world" where
  "fetch_from n e w r path =
     (case inst_of w r of
        None \<Rightarrow> (Raise AttributeError, w)
      | Some ob \<Rightarrow>
          (case path of
             VStr url \<Rightarrow>
               bind (rest_call n e (ocls ob) url ''GET'' True [(''auth'', slot ob ''_auth'')] w)
                 (\<lambda>(data, next_url) w1. fetch_merge w1 r data)
           | _ \<Rightarrow> (Raise TypeError, w)))"

text \<open>
  Pieces of the getter of \<open>_current_path\<close>: the attribute \<open>self._path.format\<close>, which
  only a string has, and the formatting against the footprint with the concatenation.
\<close>

definition path_template :: "world \<Rightarrow> nat \<Rightarrow> string res \<times> world" where
  "path_template w r =
     (case inst_of w r of
        None \<Rightarrow> (Raise AttributeError, w)
      | Some ob \<Rightarrow>
          (case slot ob ''_path'' of
             VStr template \<Rightarrow> (Ok template, w)
           | _ \<Rightarrow> (Raise AttributeError, w)))"

definition format_path :: "env \<Rightarrow> val \<Rightarrow> string \<Rightarrow> val \<Rightarrow> world \<Rightarrow> val res \<times> world" where
  "format_path e prefix template fp w =
     (case fp of
        VDict d \<Rightarrow>
          (case format e template d of
             Inl err \<Rightarrow> (Raise err, w)
           | Inr s \<Rightarrow>
               (case prefix of
                  VStr pre \<Rightarrow> (Ok (VStr (pre @ s)), w)
                | _ \<Rightarrow> (Raise TypeError, w)))
      | _ \<Rightarrow> (Raise TypeError, w))"

text \<open>
  The getter of \<open>_footprint\<close> after \<open>self._pk_vals\<close>: the dictionary is stored under
  \<open>__footprint\<close> and the instance itself entered under \<open>self\<close>.
\<close>

definition store_footprint :: "world \<Rightarrow> nat \<Rightarrow> val \<Rightarrow> val res \<times> world" where
  "store_footprint w r pkv =
     (case inst_of w r of
        None \<Rightarrow> (Raise AttributeError, w)
      | Some ob \<Rightarrow>
          (case seq_of pkv of
             None \<Rightarrow> (Raise TypeError, w)
           | Some vs \<Rightarrow>
               (let fp = AList.update ''self'' (VRef r) (dict_zip (c_pk (ocls ob)) vs)
                in bind (setattr_m w r ''_Model__footprint'' (VDict fp))
                     (\<lambda>u w1. (Ok (VDict fp), w1)))))"

text \<open>The getter of \<open>_pk_vals\<close> after \<open>self._id\<close>.\<close>

definition store_pk_vals :: "world \<Rightarrow> nat \<Rightarrow> val \<Rightarrow> val res \<times> world" where
  "store_pk_vals w r i =
     (case inst_of w r of
        None \<Rightarrow> (Raise AttributeError, w)
      | Some ob \<Rightarrow>
          (let pkv = VTuple (replicate (length (c_pk (ocls ob)) - 1) VNone @ [i])
           in bind (setattr_m w r ''_Model__pk_vals'' pkv) (\<lambda>u w1. (Ok pkv, w1))))"

definition ref_of :: "val \<Rightarrow> nat option" where
  "ref_of v = (case v of VRef p \<Rightarrow> Some p | _ \<Rightarrow> None)"

text \<open>
  Attribute access on an instance and what it can set off.  \<open>getattr_m\<close> is Python's
  lookup of \<open>self.name\<close>: a property of the class runs its getter, any other name is
  looked up in the instance dictionary and the class, and an \<open>AttributeError\<close> of
  either hands over to \<open>Model.__getattr__\<close> (\<open>getattr_hook\<close>).  \<open>fetch\<close> is
  \<open>Model.__fetch\<close>; \<open>current_path\<close>, \<open>footprint\<close>, \<open>pk_vals\<close> and \<open>id_m\<close> are the
  getters of the properties \<open>_current_path\<close>, \<open>_footprint\<close>, \<open>_pk_vals\<close> and \<open>_id\<close>.
  These functions call each other without a bound in the source; the first argument is
  the interpreter's recursion limit, and each call takes one unit of it.
\<close>

function (sequential) getattr_m :: "nat \<Rightarrow> env \<Rightarrow> world \<Rightarrow> nat \<Rightarrow> string \<Rightarrow> val res \<times> world"
  and getattr_hook :: "nat \<Rightarrow> env \<Rightarrow> world \<Rightarrow> nat \<Rightarrow> string \<Rightarrow> val res \<times> world"
  and fetch :: "nat \<Rightarrow> env \<Rightarrow> world \<Rightarrow> nat \<Rightarrow> val res \<times> world"
  and current_path :: "nat \<Rightarrow> env \<Rightarrow> world \<Rightarrow> nat \<Rightarrow> val res \<times> world"
  and footprint :: "nat \<Rightarrow> env \<Rightarrow> world \<Rightarrow> nat \<Rightarrow> val res \<times> world"
  and pk_vals :: "nat \<Rightarrow> env \<Rightarrow> world \<Rightarrow> nat \<Rightarrow> val res \<times> world"
  and id_m :: "nat \<Rightarrow> env \<Rightarrow> world \<Rightarrow> nat \<Rightarrow> val res \<times> world"
where
  "getattr_m 0 e w r name = (Raise RecursionError, w)"
| "getattr_m (Suc n) e w r name =
     (case inst_of w r of
        None \<Rightarrow> (Raise AttributeError, w)
      | Some ob \<Rightarrow>
          catch_attr
            (if name = ''_id'' then id_m n e w r
             else if name = ''_pk_vals'' then pk_vals n e w r
             else if name = ''_footprint'' then footprint n e w r
             else if name = ''_current_path'' then current_path n e w r
             else plain_lookup ob name w)
            (\<lambda>w1. getattr_hook n e w1 r name))"
| "getattr_hook 0 e w r name = (Raise RecursionError, w)"
| "getattr_hook (Suc n) e w r name =
     (case inst_of w r of
        None \<Rightarrow> (Raise AttributeError, w)
      | Some ob \<Rightarrow>
          if truthy (slot ob ''_fetched'') then (Raise AttributeError, w)
          else bind (fetch n e w r) (\<lambda>u w1. getattr_m n e w1 r name))"
| "fetch 0 e w r = (Raise RecursionError, w)"
| "fetch (Suc n) e w r =
     bind (getattr_m n e w r ''_current_path'') (\<lambda>path w1. fetch_from n e w1 r path)"
| "current_path 0 e w r = (Raise RecursionError, w)"
| "current_path (Suc n) e w r =
     bind (getattr_m n e w r ''_parent'') (\<lambda>parent w1.
     bind (case ref_of parent of
             Some p \<Rightarrow> catch_attr (getattr_m n e w1 p ''_current_path'') (\<lambda>w2. (Ok (VStr []), w2))
           | None \<Rightarrow> (Ok (VStr []), w1)) (\<lambda>prefix w2.
     bind (path_template w2 r) (\<lambda>template w3.
     bind (getattr_m n e w3 r ''_footprint'') (\<lambda>fp w4.
     format_path e prefix template fp w4))))"
| "footprint 0 e w r = (Raise RecursionError, w)"
| "footprint (Suc n) e w r =
     bind (getattr_m n e w r ''_pk_vals'') (\<lambda>pkv w1. store_footprint w1 r pkv)"
| "pk_vals 0 e w r = (Raise RecursionError, w)"
| "pk_vals (Suc n) e w r =
     bind (getattr_m n e w r ''_id'') (\<lambda>i w1. store_pk_vals w1 r i)"
| "id_m 0 e w r = (Raise RecursionError, w)"
| "id_m (Suc n) e w r =
     (case inst_of w r of
        None \<Rightarrow> (Raise AttributeError, w)
      | Some ob \<Rightarrow>
          if truthy (slot ob ''_Model__pk_vals'') then (last_item (slot ob ''_Model__pk_vals''), w)
          else if c_pk (ocls ob) = [] then (Raise IndexError, w)
          else getattr_m n e w r (last (c_pk (ocls ob))))"
  by pat_completeness auto

termination
  by (relation "measure (case_sum (case_sum fst (case_sum fst fst))
                                   (case_sum (case_sum fst fst) (case_sum fst fst)))") auto

section \<open>Class-level operations of \<open>Model\<close>\<close>

text \<open>
  \<open>getattr(parent, '_current_path', "")\<close>: only an instance has the attribute, and an
  \<open>AttributeError\<close> raised while it is computed gives the default as well.
\<close>

definition parent_path :: "nat \<Rightarrow> env \<Rightarrow> world \<Rightarrow> val \<Rightarrow> val res \<times> world" where
  "parent_path n e w parent =
     (case ref_of parent of
        Some p \<Rightarrow> catch_attr (getattr_m n e w p ''_current_path'') (\<lambda>w1. (Ok (VStr []), w1))
      | None \<Rightarrow> (Ok (VStr []), w))"

text \<open>
  \<open>Model.read(cls, *args, **kwargs)\<close>.  The result is \<open>VNone\<close> for "no resource" and
  the reference to the new instance otherwise.
\<close>

definition read :: "nat \<Rightarrow> env \<Rightarrow> cls \<Rightarrow> val list \<Rightarrow> (string \<times> val) list \<Rightarrow> world \<Rightarrow> val res \<times> world" where
  "read n e c args kwargs w =
     (let auth = (case map_of kwargs ''auth'' of Some a \<Rightarrow> a | None \<Rightarrow> c_auth c);
          ids = dict_zip (c_pk c) args;
          parent = (case map_of kwargs ''parent'' of Some p \<Rightarrow> p | None \<Rightarrow> VNone)
      in bind (parent_path n e w parent) (\<lambda>prefix w1.
         case c_path c of
           VStr template \<Rightarrow>
             bind (format_path e prefix template (VDict ids) w1) (\<lambda>path w2.
             case path of
               VStr url \<Rightarrow>
                 bind (rest_call n e c url ''GET'' True [(''auth'', auth)] w2) (\<lambda>(data, next_url) w3.
                 if \<not> truthy data then (Ok VNone, w3)
                 else
                   bind (construct w3 c (Some parent) data) (\<lambda>r w4.
                   bind (setattr_m w4 r ''_pk_vals'' (VTuple args)) (\<lambda>u w5.
                   bind (setattr_m w5 r ''_fetched'' (VBool True)) (\<lambda>u w6.
                   if truthy auth then
                     bind (setattr_m w6 r ''_auth'' auth) (\<lambda>u w7. (Ok (VRef r), w7))
                   else (Ok (VRef r), w6)))))
             | _ \<Rightarrow> (Raise TypeError, w2))
         | _ \<Rightarrow> (Raise AttributeError, w1)))"

text \<open>
  The decorators of the instance operations.  \<open>normalize_auth\<close> replaces a missing
  credential by \<open>cls._auth or instance._auth\<close>; \<open>assert_class_instance\<close> asserts
  \<open>isinstance(instance, cls)\<close>, which holds when the class is among the ancestors of
  the instance's class.
\<close>

definition isinstance :: "obj \<Rightarrow> cls \<Rightarrow> bool" where
  "isinstance ob c = (c_name c \<in> set (c_mro (ocls ob)))"

definition normalize_auth :: "cls \<Rightarrow> obj \<Rightarrow> val \<Rightarrow> val" where
  "normalize_auth c ob auth =
     (if auth = VNone then (if truthy (c_auth c) then c_auth c else slot ob ''_auth'') else auth)"

definition decorated ::
  "cls \<Rightarrow> nat \<Rightarrow> val \<Rightarrow> world \<Rightarrow> (obj \<Rightarrow> val \<Rightarrow> val res \<times> world) \<Rightarrow> val res \<times> world" where
  "decorated c r auth w body =
     (case inst_of w r of
        None \<Rightarrow>
          if auth = VNone \<and> \<not> truthy (c_auth c) then (Raise AttributeError, w)
          else (Raise AssertionError, w)
      | Some ob \<Rightarrow>
          if \<not> isinstance ob c then (Raise AssertionError, w)
          else body ob (normalize_auth c ob auth))"








text \<open>\<open>Model.delete(cls, instance, auth=None)\<close>.\<close>

definition delete_m :: "nat \<Rightarrow> env \<Rightarrow> cls \<Rightarrow> nat \<Rightarrow> val \<Rightarrow> world \<Rightarrow> val res \<times> world" where
  "delete_m n e c r auth w =
     decorated c r auth w (\<lambda>ob auth'.
       bind (getattr_m n e w r ''_current_path'') (\<lambda>path w1.
       case path of
         VStr url \<Rightarrow>
           bind (rest_call n e c url ''DELETE'' True [(''auth'', auth')] w1)
             (\<lambda>res w2. (Ok (VBool True), w2))
       | _ \<Rightarrow> (Raise TypeError, w1)))"

text \<open>
  The comparison \<open>==\<close> on key values: numbers by value (a bool is 0 or 1), strings and
  \<open>None\<close> by value, sequences element by element, dicts key by key, references by
  identity.
\<close>

fun num_of :: "val \<Rightarrow> int option" where
  "num_of (VInt i) = Some i"
| "num_of (VBool b) = Some (if b then 1 else 0)"
| "num_of _ = None"

fun py_eq :: "val \<Rightarrow> val \<Rightarrow> bool" where
  "py_eq VNone VNone = True"
| "py_eq (VInt i) v = (num_of v = Some i)"
| "py_eq (VBool b) v = (num_of v = Some (if b then 1 else 0))"
| "py_eq (VStr s) (VStr t) = (s = t)"
| "py_eq (VList xs) (VList ys) = list_all2 py_eq xs ys"
| "py_eq (VTuple xs) (VTuple ys) = list_all2 py_eq xs ys"
| "py_eq (VDict kvs) (VDict kvs') =
     (length kvs = length kvs' \<and>
      (\<forall>(k, v) \<in> set kvs. case map_of kvs' k of None \<Rightarrow> False | Some v' \<Rightarrow> py_eq v v'))"
| "py_eq (VSet ks) (VSet ks') = (set ks = set ks')"
| "py_eq (VRef r) (VRef r') = (r = r')"
| "py_eq (VClass c) (VClass c') = (c = c')"
| "py_eq _ _ = False"

text \<open>
  \<open>Model.__eq__(self, other)\<close>: \<open>isinstance(other, self.__class__) and self._id ==
  other._id\<close>.
\<close>

definition eq_m :: "nat \<Rightarrow> env \<Rightarrow> world \<Rightarrow> nat \<Rightarrow> val \<Rightarrow> val res \<times> world" where
  "eq_m n e w a other =
     (case inst_of w a of
        None \<Rightarrow> (Raise AttributeError, w)
      | Some oa \<Rightarrow>
          (case ref_of other of
             None \<Rightarrow> (Ok (VBool False), w)
           | Some b \<Rightarrow>
               (case inst_of w b of
                  None \<Rightarrow> (Ok (VBool False), w)
                | Some ob \<Rightarrow>
                    if \<not> isinstance ob (ocls oa) then (Ok (VBool False), w)
                    else
                      bind (getattr_m n e w a ''_id'') (\<lambda>ia w1.
                      bind (getattr_m n e w1 b ''_id'') (\<lambda>ib w2.
                      (Ok (VBool (py_eq ia ib)), w2))))))"

text \<open>
  Two notions for stating properties: a world keeps the instances of another one, and a
  value is well formed when the keys of every dict in it are distinct.
\<close>

definition keeps :: "world \<Rightarrow> world \<Rightarrow> bool" where
  "keeps w w' = (\<forall>r ob. inst_of w r = Some ob \<longrightarrow> inst_of w' r = Some ob)"

fun wf_val :: "val \<Rightarrow> bool" where
  "wf_val (VList xs) = (\<forall>x \<in> set xs. wf_val x)"
| "wf_val (VTuple xs) = (\<forall>x \<in> set xs. wf_val x)"
| "wf_val (VDict kvs) = (distinct (map fst kvs) \<and> (\<forall>(k, v) \<in> set kvs. wf_val v))"
| "wf_val v = True"

text \<open>
  The operator \<open>a == b\<close> on two instances, as the interpreter dispatches it: when the
  class of \<open>b\<close> is a proper subclass of the class of \<open>a\<close>, the method of \<open>b\<close> is tried
  first with the operands swapped, otherwise the method of \<open>a\<close>; \<open>Model.__eq__\<close> always
  answers with a truth value, so the first method tried decides.  Classes are told apart
  by their names.
\<close>

definition equals :: "nat \<Rightarrow> env \<Rightarrow> world \<Rightarrow> nat \<Rightarrow> nat \<Rightarrow> val res \<times> world" where
  "equals n e w a b =
     (case (inst_of w a, inst_of w b) of
        (Some oa, Some ob) \<Rightarrow>
          if c_name (ocls oa) \<noteq> c_name (ocls ob) \<and> c_name (ocls oa) \<in> set (c_mro (ocls ob))
          then eq_m n e w b (VRef a)
          else eq_m n e w a (VRef b)
      | _ \<Rightarrow> (Raise AttributeError, w))"

section \<open>Relation descriptors\<close>







text \<open>
  A \<open>Foreign\<close> descriptor.  The key extractor is the caller's function or the default
  \<open>extract\<close>, which keeps the constructor argument \<open>key_property\<close> as it was given.
\<close>

datatype extractor =
    UserExtractor "nat \<Rightarrow> env \<Rightarrow> world \<Rightarrow> nat \<Rightarrow> val res \<times> world"
  | DefaultExtract "string option"

record foreign =
  f_model :: cls
  f_cache :: "(nat \<times> val) list"
  f_embedded :: bool
  f_key_property :: string
  f_key_extractor :: "extractor option"

text \<open>
  \<open>Foreign.__init__(self, model, key_property=None, key_extractor=None,
  embedded=False)\<close>.
\<close>

definition foreign_init ::
  "cls \<Rightarrow> string option \<Rightarrow> (nat \<Rightarrow> env \<Rightarrow> world \<Rightarrow> nat \<Rightarrow> val res \<times> world) option \<Rightarrow> bool \<Rightarrow> foreign" where
  "foreign_init model key_property key_extractor embedded =
     \<lparr>f_model = model, f_cache = [],
      f_embedded = (embedded \<and> key_extractor = None),
      f_key_property =
        (case key_property of
           Some s \<Rightarrow> if s \<noteq> [] then s else ''__'' @ lower (c_name model)
         | None \<Rightarrow> ''__'' @ lower (c_name model)),
      f_key_extractor =
        (case key_extractor of
           Some f \<Rightarrow> Some (UserExtractor f)
         | None \<Rightarrow> if \<not> embedded then Some (DefaultExtract key_property) else None)\<rparr>"

text \<open>
  The match of \<open>(\w+)(?:\[(\w+)\])?\<close> at the start of the key property: the longest
  run of word characters, then optionally a bracketed run of word characters.
\<close>

definition is_word_char :: "char \<Rightarrow> bool" where
  "is_word_char c =
     (c \<in> set ''abcdefghijklmnopqrstuvwxyzABCDEFGHIJKLMNOPQRSTUVWXYZ0123456789_'')"

definition match_key_property :: "string \<Rightarrow> (string \<times> string option) option" where
  "match_key_property s =
     (let item = takeWhile is_word_char s; rest = dropWhile is_word_char s
      in if item = [] then None
         else (case rest of
                 c # rest' \<Rightarrow>
                   (let key = takeWhile is_word_char rest'; tail = dropWhile is_word_char rest'
                    in if c = CHR ''['' \<and> key \<noteq> [] \<and> tail \<noteq> [] \<and> hd tail = CHR '']''
                       then Some (item, Some key) else Some (item, None))
               | [] \<Rightarrow> Some (item, None)))"

text \<open>The subscript \<open>item[key]\<close> with a string key.\<close>

definition subscript :: "val \<Rightarrow> string \<Rightarrow> val res" where
  "subscript item key =
     (case item of
        VDict kvs \<Rightarrow> (case map_of kvs key of Some v \<Rightarrow> Ok v | None \<Rightarrow> Raise KeyError)
      | _ \<Rightarrow> Raise TypeError)"

fun extract_ids ::
  "nat \<Rightarrow> env \<Rightarrow> (string \<times> val) list \<Rightarrow> nat \<Rightarrow> string list \<Rightarrow> world \<Rightarrow> val list res \<times> world" where
  "extract_ids n e fp r [] w = (Ok [], w)"
| "extract_ids n e fp r (k # ks) w =
     bind (case map_of fp k of Some v \<Rightarrow> (Ok v, w) | None \<Rightarrow> getattr_m n e w r k) (\<lambda>v w1.
     bind (extract_ids n e fp r ks w1) (\<lambda>vs w2. (Ok (v # vs), w2)))"

text \<open>
  The default key extractor \<open>extract(instance)\<close> of \<open>Foreign.__init__\<close> (the name
  \<open>extract\<close> is taken in Isabelle).
\<close>

definition extract_key :: "nat \<Rightarrow> env \<Rightarrow> cls \<Rightarrow> string option \<Rightarrow> world \<Rightarrow> nat \<Rightarrow> val res \<times> world" where
  "extract_key n e model key_property w r =
     bind (getattr_m n e w r ''_footprint'') (\<lambda>fp w1.
     case fp of
       VDict f \<Rightarrow>
         bind (extract_ids n e f r (butlast (c_pk model)) w1) (\<lambda>ids w2.
         case key_property of
           None \<Rightarrow> (Raise TypeError, w2)
         | Some s \<Rightarrow>
             (case match_key_property s of
                None \<Rightarrow> (Raise AttributeError, w2)
              | Some (item, key) \<Rightarrow>
                  bind (getattr_m n e w2 r item) (\<lambda>v w3.
                  case key of
                    None \<Rightarrow> (Ok (VTuple (ids @ [v])), w3)
                  | Some k \<Rightarrow>
                      (case subscript v k of
                         Raise err \<Rightarrow> (Raise err, w3)
                       | Ok v' \<Rightarrow> (Ok (VTuple (ids @ [v'])), w3)))))
     | _ \<Rightarrow> (Raise TypeError, w1))"

text \<open>
  The value that \<open>Foreign.__get__\<close> stores in the cache.  Embedded: the target is
  constructed from the attribute \<open>key_property\<close> of the owner.  Referenced: the
  classmethod \<open>get\<close> of the target class is looked up first (\<open>c_get\<close> tells whether the
  class has it: \<open>McashModel\<close> defines it as an alias of \<open>read\<close>, \<open>Model\<close> has no
  \<open>get\<close>), then the credential of the owner is read, the key extracted and \<open>read\<close> called.
\<close>

definition foreign_resolve :: "nat \<Rightarrow> env \<Rightarrow> foreign \<Rightarrow> nat \<Rightarrow> world \<Rightarrow> val res \<times> world" where
  "foreign_resolve n e d r w =
     (if f_embedded d then
        bind (getattr_m n e w r (f_key_property d)) (\<lambda>sub w1.
        bind (construct w1 (f_model d) None sub) (\<lambda>t w2. (Ok (VRef t), w2)))
      else if \<not> c_get (f_model d) then (Raise AttributeError, w)
      else
        (case inst_of w r of
           None \<Rightarrow> (Raise AttributeError, w)
         | Some ob \<Rightarrow>
             bind (case f_key_extractor d of
                     None \<Rightarrow> (Raise AttributeError, w)
                   | Some (UserExtractor f) \<Rightarrow> f n e w r
                   | Some (DefaultExtract kp) \<Rightarrow> extract_key n e (f_model d) kp w r) (\<lambda>key w1.
             case seq_of key of
               None \<Rightarrow> (Raise TypeError, w1)
             | Some args \<Rightarrow> read n e (f_model d) args [(''auth'', slot ob ''_auth'')] w1)))"

text \<open>Assignment to an attribute of a value that need not be an instance.\<close>

definition setattr_val :: "world \<Rightarrow> val \<Rightarrow> string \<Rightarrow> val \<Rightarrow> unit res \<times> world" where
  "setattr_val w target key v =
     (case ref_of target of None \<Rightarrow> (Raise AttributeError, w) | Some t \<Rightarrow> setattr_m w t key v)"

text \<open>
  The assignments of \<open>Foreign.__get__\<close> to the cached value: the owner's credential in
  the embedded mode, and the back-reference \<open>_pyresto_owner\<close>.
\<close>

definition foreign_tag :: "foreign \<Rightarrow> nat \<Rightarrow> val \<Rightarrow> world \<Rightarrow> unit res \<times> world" where
  "foreign_tag d r v w =
     bind (if f_embedded d then
             (case inst_of w r of
                None \<Rightarrow> (Raise AttributeError, w)
              | Some ob \<Rightarrow> setattr_val w v ''_auth'' (slot ob ''_auth''))
           else (Ok (), w))
       (\<lambda>u w1. setattr_val w1 v ''_pyresto_owner'' (VRef r))"

text \<open>\<open>Foreign.__get__(self, instance, owner)\<close>.\<close>

definition foreign_get :: "nat \<Rightarrow> env \<Rightarrow> foreign \<Rightarrow> nat option \<Rightarrow> world \<Rightarrow> val res \<times> foreign \<times> world" where
  "foreign_get n e d instance w =
     (case instance of
        None \<Rightarrow> (Ok (VClass (c_name (f_model d))), d, w)
      | Some r \<Rightarrow>
          (case map_of (f_cache d) r of
             Some v \<Rightarrow> (Ok v, d, w)
           | None \<Rightarrow>
               (case foreign_resolve n e d r w of
                  (Raise err, w1) \<Rightarrow> (Raise err, d, w1)
                | (Ok v, w1) \<Rightarrow>
                    (case foreign_tag d r v w1 of
                       (Raise err, w2) \<Rightarrow> (Raise err, d\<lparr>f_cache := AList.update r v (f_cache d)\<rparr>, w2)
                     | (Ok u, w2) \<Rightarrow> (Ok v, d\<lparr>f_cache := AList.update r v (f_cache d)\<rparr>, w2)))))"

text \<open>
  A paginated resource as the transport serves it: \<open>serves e c kwargs log url method ps\<close>
  says that, after the requests \<open>log\<close>, the request for \<open>url\<close> is answered with a success
  status and a non-empty body that parses to the list \<open>fst (hd ps)\<close>, that the
  continuation hook yields \<open>snd (hd ps)\<close>, and that this locator leads to the remaining
  pages \<open>tl ps\<close> in the same way; the last page has no continuation.
\<close>

definition page_request :: "env \<Rightarrow> cls \<Rightarrow> (string \<times> val) list \<Rightarrow> string \<Rightarrow> string \<Rightarrow> request" where
  "page_request e c kwargs url method =
     \<lparr>rq_method = lower method, rq_url = urljoin e (c_url_base c) url, rq_kwargs = kwargs\<rparr>"

fun serves ::
  "env \<Rightarrow> cls \<Rightarrow> (string \<times> val) list \<Rightarrow> request list \<Rightarrow> string \<Rightarrow> string
     \<Rightarrow> (val list \<times> string option) list \<Rightarrow> bool" where
  "serves e c kwargs log url method [] = False"
| "serves e c kwargs log url method ((items, nxt) # ps) =
     (case transport e log (page_request e c kwargs url method) of
        Inl err \<Rightarrow> False
      | Inr r \<Rightarrow>
          200 \<le> status_code r \<and> status_code r < 300 \<and> resp_text r \<noteq> [] \<and>
          c_parser c (resp_text r) = Inr (VList items) \<and> c_continuator c r = nxt \<and>
          (if ps = [] then \<not> has_continuation nxt
           else has_continuation nxt \<and>
                serves e c kwargs (log @ [page_request e c kwargs url method]) (the nxt) ''GET'' ps))"

fun page_requests ::
  "env \<Rightarrow> cls \<Rightarrow> (string \<times> val) list \<Rightarrow> string \<Rightarrow> string
     \<Rightarrow> (val list \<times> string option) list \<Rightarrow> request list" where
  "page_requests e c kwargs url method [] = []"
| "page_requests e c kwargs url method ((items, nxt) # ps) =
     page_request e c kwargs url method # page_requests e c kwargs (the nxt) ''GET'' ps"

section \<open>A concrete API for evaluation\<close>

text \<open>
  A server with a two-page collection of commits, items addressed by one key, points of
  sale addressed by a merchant and an id, a resource whose body is empty, and 404 for
  everything else.  The continuation hook reads the \<open>next\<close> header; the formatter fills
  \<open>{name}\<close> fields from the footprint.
\<close>

definition demo_urljoin :: "val \<Rightarrow> string \<Rightarrow> string" where
  "demo_urljoin base url =
     (case base of VStr b \<Rightarrow> if take 4 url = ''http'' then url else b @ url | _ \<Rightarrow> url)"

definition demo_routes :: "(string \<times> string \<times> string \<times> (string \<times> string) list) list" where
  "demo_routes =
     [(''get'', ''http://api/commits'', ''page1'', [(''next'', ''http://api/commits?page=2'')]),
      (''get'', ''http://api/commits?page=2'', ''page2'', []),
      (''get'', ''http://api/items/42/'', ''item42'', []),
      (''patch'', ''http://api/items/42/'', ''patched42'', []),
      (''get'', ''http://api/items/7/'', [], []),
      (''get'', ''http://api/m/acme/pos/42/'', ''pos42'', [])]"

fun demo_lookup ::
  "(string \<times> string \<times> string \<times> (string \<times> string) list) list \<Rightarrow> string \<Rightarrow> string \<Rightarrow> response" where
  "demo_lookup [] m u = \<lparr>status_code = 404, resp_text = ''missing'', headers = []\<rparr>"
| "demo_lookup ((m', u', body, hs) # routes) m u =
     (if m = m' \<and> u = u' then \<lparr>status_code = 200, resp_text = body, headers = hs\<rparr>
      else demo_lookup routes m u)"

definition demo_transport :: "request list \<Rightarrow> request \<Rightarrow> error + response" where
  "demo_transport log rq = Inr (demo_lookup demo_routes (rq_method rq) (rq_url rq))"

definition demo_parser :: "string \<Rightarrow> error + val" where
  "demo_parser s =
     (if s = ''page1'' then Inr (VList [VDict [(''sha'', VStr ''a'')]])
      else if s = ''page2'' then Inr (VList [VDict [(''sha'', VStr ''b'')]])
      else if s = ''item42'' then Inr (VDict [(''id'', VStr ''42''), (''name'', VStr ''x'')])
      else if s = ''patched42'' then Inr (VDict [(''name'', VStr ''y'')])
      else if s = ''pos42'' then Inr (VDict [(''id'', VStr ''42''), (''name'', VStr ''Kasse 3'')])
      else Inl ValueError)"

definition demo_continuator :: "response \<Rightarrow> string option" where
  "demo_continuator r = map_of (headers r) ''next''"

definition demo_str :: "val \<Rightarrow> string" where
  "demo_str v = (case v of VStr s \<Rightarrow> s | VInt i \<Rightarrow> dec_int i | VNone \<Rightarrow> ''None'' | _ \<Rightarrow> ''?'')"

fun demo_fields :: "string \<Rightarrow> string option \<Rightarrow> (string \<times> val) list \<Rightarrow> error + string" where
  "demo_fields [] None fp = Inr []"
| "demo_fields [] (Some k) fp = Inl ValueError"
| "demo_fields (c # cs) None fp =
     (if c = CHR ''{'' then demo_fields cs (Some []) fp
      else (case demo_fields cs None fp of Inl err \<Rightarrow> Inl err | Inr s \<Rightarrow> Inr (c # s)))"
| "demo_fields (c # cs) (Some k) fp =
     (if c = CHR ''}'' then
        (case map_of fp k of
           None \<Rightarrow> Inl KeyError
         | Some v \<Rightarrow>
             (case demo_fields cs None fp of Inl err \<Rightarrow> Inl err | Inr s \<Rightarrow> Inr (demo_str v @ s)))
      else demo_fields cs (Some (k @ [c])) fp)"

definition demo_format :: "string \<Rightarrow> (string \<times> val) list \<Rightarrow> error + string" where
  "demo_format template fp = demo_fields template None fp"

definition demo_env :: env where
  "demo_env = \<lparr>transport = demo_transport, urljoin = demo_urljoin, format = demo_format\<rparr>"

definition demo_class :: "string \<Rightarrow> string list \<Rightarrow> string \<Rightarrow> string list \<Rightarrow> cls" where
  "demo_class name mro path pk =
     \<lparr>c_name = name, c_mro = mro, c_url_base = VStr ''http://api'', c_path = VStr path,
      c_pk = pk, c_auth = VNone, c_update_method = ''PATCH'', c_parser = demo_parser,
      c_serializer = Inr, c_continuator = demo_continuator, c_dict = [], c_get = False\<rparr>"

definition demo_commit :: cls where
  "demo_commit = demo_class ''Commit'' [''Commit'', ''Model''] ''/commits'' [''sha'']"

definition demo_item :: cls where
  "demo_item = demo_class ''Item'' [''Item'', ''Model''] ''/items/{id}/'' [''id'']"

definition demo_special :: cls where
  "demo_special =
     demo_class ''SpecialItem'' [''SpecialItem'', ''Item'', ''Model''] ''/items/{id}/'' [''id'']"

definition demo_pos :: cls where
  "demo_pos = demo_class ''Pos'' [''Pos'', ''Model''] ''/m/{merchant}/pos/{id}/'' [''merchant'', ''id'']"

definition demo_pages :: "(val list \<times> string option) list" where
  "demo_pages = [([VDict [(''sha'', VStr ''a'')]], Some ''http://api/commits?page=2''),
                 ([VDict [(''sha'', VStr ''b'')]], None)]"

definition w0 :: world where
  "w0 = \<lparr>heap = [], calls = []\<rparr>"

text \<open>Instances made by the constructor, and a server that always answers 404.\<close>

definition w13 :: world where
  "w13 = snd (init_m w0 demo_item VNone [(''id'', VStr ''13'')])"

definition w7 :: world where
  "w7 = snd (init_m w0 demo_item VNone [(''id'', VStr ''7'')])"

definition w42 :: world where
  "w42 = snd (init_m w0 demo_item VNone [(''id'', VStr ''42'')])"

definition demo_failing :: "string \<Rightarrow> env" where
  "demo_failing body =
     demo_env\<lparr>transport := (\<lambda>log rq. Inr \<lparr>status_code = 404, resp_text = body, headers = []\<rparr>)\<rparr>"


text \<open>
  A commit that refers to an item by key (\<open>item_id\<close>) and carries an author inline, with
  the two \<open>Foreign\<close> relations.
\<close>

definition w_commit :: world where
  "w_commit = snd (init_m w0 demo_commit VNone
     [(''sha'', VStr ''a''), (''item_id'', VStr ''42''),
      (''author'', VDict [(''id'', VStr ''9''), (''name'', VStr ''ann'')])])"

definition demo_foreign :: foreign where
  "demo_foreign = foreign_init demo_item (Some ''item_id'') None False"

definition demo_embedded :: foreign where
  "demo_embedded = foreign_init demo_item (Some ''author'') None True"

text \<open>An item and an instance of a subclass of its class, with the same key.\<close>

definition w_pair :: world where
  "w_pair = snd (init_m (snd (init_m w0 demo_item VNone [(''id'', VStr ''42'')]))
                  demo_special VNone [(''id'', VStr ''42'')])"


text \<open>Whether the transport answers a request with a status outside 200..299, and which.\<close>

definition bad_status :: "env \<Rightarrow> request list \<Rightarrow> request \<Rightarrow> int option" where
  "bad_status e log rq =
     (case transport e log rq of
        Inl err \<Rightarrow> None
      | Inr response \<Rightarrow>
          if 200 \<le> status_code response \<and> status_code response < 300 then None
          else Some (status_code response))"

section \<open>Properties\<close>

subsection \<open>Pagination\<close>

lemma GET_allowed: "''GET'' \<in> ALLOWED_HTTP_METHODS"
  by (simp add: ALLOWED_HTTP_METHODS_def)

lemma rest_call_all_pages:
  "c_auth c = VNone \<or> map_of kwargs ''auth'' \<noteq> None \<Longrightarrow> meth \<in> ALLOWED_HTTP_METHODS \<Longrightarrow>
   serves e c kwargs (calls w) url meth ps \<Longrightarrow> length ps \<le> n \<Longrightarrow>
   rest_call n e c url meth True kwargs w =
     (Ok (VList (concat (map fst ps)), None),
      w\<lparr>calls := calls w @ page_requests e c kwargs url meth ps\<rparr>)"
proof (induction ps arbitrary: n url meth w)
  case Nil
  then show ?case by simp
next
  case (Cons p ps)
  obtain items nxt where p: "p = (items, nxt)" by (cases p)
  from Cons.prems(4) obtain m where n: "n = Suc m" and m: "length ps \<le> m"
    by (cases n) auto
  let ?rq = "page_request e c kwargs url meth"
  from Cons.prems(3) p obtain r where
    r: "transport e (calls w) ?rq = Inr r"
    and ok: "200 \<le> status_code r" "status_code r < 300" "resp_text r \<noteq> []"
    and parse: "c_parser c (resp_text r) = Inr (VList items)"
    and cont: "c_continuator c r = nxt"
    and rest: "if ps = [] then \<not> has_continuation nxt
           else has_continuation nxt \<and> serves e c kwargs (calls w @ [?rq]) (the nxt) ''GET'' ps"
    by (auto split: sum.splits)
  have pr: "\<lparr>rq_method = lower meth, rq_url = urljoin e (c_url_base c) url, rq_kwargs = kwargs\<rparr> = ?rq"
    by (simp add: page_request_def)
  show ?case
  proof (cases "ps = []")
    case True
    with rest have "\<not> has_continuation nxt" by simp
    with True p n r ok parse cont Cons.prems(1,2) show ?thesis
      by (auto simp: Let_def pr)
  next
    case False
    with rest have hc: "has_continuation nxt"
      and sv: "serves e c kwargs (calls (w\<lparr>calls := calls w @ [?rq]\<rparr>)) (the nxt) ''GET'' ps"
      by simp_all
    have ih: "rest_call m e c (the nxt) ''GET'' True kwargs (w\<lparr>calls := calls w @ [?rq]\<rparr>) =
      (Ok (VList (concat (map fst ps)), None),
       w\<lparr>calls := calls w @ [?rq] @ page_requests e c kwargs (the nxt) ''GET'' ps\<rparr>)"
      using Cons.IH [OF Cons.prems(1) GET_allowed sv m] by simp
    show ?thesis
      using p n r ok parse cont hc Cons.prems(1,2) ih
      by (auto simp: Let_def pr)
  qed
qed

lemma rest_call_one_page:
  assumes "c_auth c = VNone \<or> map_of kwargs ''auth'' \<noteq> None"
    and "meth \<in> ALLOWED_HTTP_METHODS"
    and "serves e c kwargs (calls w) url meth ps"
    and "0 < n"
  shows "rest_call n e c url meth False kwargs w =
     (Ok (VList (fst (hd ps)), if tl ps = [] then None else snd (hd ps)),
      w\<lparr>calls := calls w @ [page_request e c kwargs url meth]\<rparr>)"
proof -
  from assms(3) obtain items nxt ps' where ps: "ps = (items, nxt) # ps'"
    by (cases ps) auto
  from assms(4) obtain m where n: "n = Suc m" by (cases n) auto
  let ?rq = "page_request e c kwargs url meth"
  from assms(3) ps obtain r where
    r: "transport e (calls w) ?rq = Inr r"
    and ok: "200 \<le> status_code r" "status_code r < 300" "resp_text r \<noteq> []"
    and parse: "c_parser c (resp_text r) = Inr (VList items)"
    and cont: "c_continuator c r = nxt"
    and rest: "if ps' = [] then \<not> has_continuation nxt else has_continuation nxt"
    by (auto split: sum.splits if_splits)
  have pr: "\<lparr>rq_method = lower meth, rq_url = urljoin e (c_url_base c) url, rq_kwargs = kwargs\<rparr> = ?rq"
    by (simp add: page_request_def)
  show ?thesis
    using ps n r ok parse cont rest assms(1,2)
    by (auto simp: Let_def pr)
qed

text \<open>
  Claim C2.  When the transport serves the pages \<open>ps\<close> (each a success response whose
  body parses to a list), the call with \<open>fetch_all = True\<close> returns the concatenation of
  the pages' data in page order with no continuation, after one request per page; the call
  with \<open>fetch_all = False\<close> makes one request and returns the first page's data with the
  locator of the next page (none on the last page).  The recursion limit \<open>n\<close> has to
  cover the number of pages, and the call carries a credential whenever the class has one.
\<close>

theorem rest_call_pagination:
  assumes "c_auth c = VNone \<or> map_of kwargs ''auth'' \<noteq> None"
    and "meth \<in> ALLOWED_HTTP_METHODS"
    and "serves e c kwargs (calls w) url meth ps"
    and "length ps \<le> n"
  shows "rest_call n e c url meth True kwargs w =
           (Ok (VList (concat (map fst ps)), None),
            w\<lparr>calls := calls w @ page_requests e c kwargs url meth ps\<rparr>) \<and>
         rest_call n e c url meth False kwargs w =
           (Ok (VList (fst (hd ps)), if tl ps = [] then None else snd (hd ps)),
            w\<lparr>calls := calls w @ [page_request e c kwargs url meth]\<rparr>)"
proof -
  from assms(3) have "ps \<noteq> []" by (cases ps) auto
  with assms(4) have "0 < n" by (cases ps) auto
  with assms rest_call_all_pages rest_call_one_page show ?thesis by blast
qed

lemma lower_GET: "lower ''GET'' = ''get''"
  by (simp add: lower_def lower_char_def)

lemma demo_serves: "serves demo_env demo_commit [] (calls w0) ''/commits'' ''GET'' demo_pages"
  by (simp add: demo_pages_def demo_env_def demo_commit_def demo_class_def w0_def
      page_request_def demo_transport_def demo_routes_def demo_urljoin_def demo_parser_def
      demo_continuator_def has_continuation_def lower_def lower_char_def)

theorem rest_call_pagination_witness:
  "rest_call 2 demo_env demo_commit ''/commits'' ''GET'' True [] w0 =
     (Ok (VList [VDict [(''sha'', VStr ''a'')], VDict [(''sha'', VStr ''b'')]], None),
      w0\<lparr>calls := [\<lparr>rq_method = ''get'', rq_url = ''http://api/commits'', rq_kwargs = []\<rparr>,
                    \<lparr>rq_method = ''get'', rq_url = ''http://api/commits?page=2'', rq_kwargs = []\<rparr>]\<rparr>) \<and>
   rest_call 2 demo_env demo_commit ''/commits'' ''GET'' False [] w0 =
     (Ok (VList [VDict [(''sha'', VStr ''a'')]], Some ''http://api/commits?page=2''),
      w0\<lparr>calls := [\<lparr>rq_method = ''get'', rq_url = ''http://api/commits'', rq_kwargs = []\<rparr>]\<rparr>)"
proof -
  have a: "c_auth demo_commit = VNone \<or> map_of [] ''auth'' \<noteq> (None :: val option)"
    by (simp add: demo_commit_def demo_class_def)
  have l: "length demo_pages \<le> 2" by (simp add: demo_pages_def)
  show ?thesis
    using rest_call_pagination [OF a GET_allowed demo_serves l]
    by (simp add: demo_pages_def page_request_def lower_GET demo_env_def demo_commit_def
        demo_class_def demo_urljoin_def w0_def)
qed

subsection \<open>Sequencing\<close>

lemma bind_Raise [simp]: "bind (Raise err, w) f = (Raise err, w)"
  by (simp add: bind_def)

lemma bind_Ok [simp]: "bind (Ok v, w) f = f v w"
  by (simp add: bind_def)

lemma pair_fstI: "fst p = a \<Longrightarrow> p = (a, snd p)"
  by auto

subsection \<open>Non-success status codes\<close>

lemma rest_call_aborts:
  "rest_call n e c url meth fetch_all kwargs w = (res, w') \<Longrightarrow>
   \<exists>new. calls w' = calls w @ new \<and> heap w' = heap w \<and>
     (\<forall>i < length new. \<forall>code. bad_status e (calls w @ take i new) (new ! i) = Some code \<longrightarrow>
        Suc i = length new \<and>
        res = Raise (PyrestoServerResponseException (server_response_msg code)))"
proof (induction n arbitrary: url meth fetch_all w res w')
  case 0
  then show ?case by auto
next
  case (Suc n)
  let ?rq = "\<lparr>rq_method = lower meth, rq_url = urljoin e (c_url_base c) url, rq_kwargs = kwargs\<rparr>"
  let ?w1 = "w\<lparr>calls := calls w @ [?rq]\<rparr>"
  show ?case
  proof (cases "(c_auth c \<noteq> VNone \<and> map_of kwargs ''auth'' = None) \<or> meth \<notin> ALLOWED_HTTP_METHODS")
    case True
    with Suc.prems have "w' = w" by (auto simp: Let_def split: if_splits)
    then show ?thesis by auto
  next
    case False
    note pre = this
    show ?thesis
    proof (cases "transport e (calls w) ?rq")
      case (Inl err)
      with pre Suc.prems have "w' = ?w1" by (auto simp: Let_def)
      moreover from Inl have "bad_status e (calls w) ?rq = None" by (simp add: bad_status_def)
      ultimately show ?thesis by (intro exI [of _ "[?rq]"]) auto
    next
      case (Inr resp)
      show ?thesis
      proof (cases "200 \<le> status_code resp \<and> status_code resp < 300")
        case False
        with pre Inr Suc.prems have "w' = ?w1"
          and "res = Raise (PyrestoServerResponseException (server_response_msg (status_code resp)))"
          by (auto simp: Let_def)
        moreover from False Inr have "bad_status e (calls w) ?rq = Some (status_code resp)"
          by (auto simp: bad_status_def)
        ultimately show ?thesis by (intro exI [of _ "[?rq]"]) auto
      next
        case True
        with Inr have ok: "bad_status e (calls w) ?rq = None" by (simp add: bad_status_def)
        show ?thesis
        proof (cases "has_continuation (c_continuator c resp) \<and> fetch_all \<and>
            (\<exists>d. (if resp_text resp \<noteq> [] then c_parser c (resp_text resp) else Inr VNone) = Inr d)")
          case False
          with pre Inr True Suc.prems have "w' = ?w1"
            by (auto simp: Let_def split: sum.splits if_splits)
          with ok show ?thesis by (intro exI [of _ "[?rq]"]) auto
        next
          case more: True
          then obtain d where
            d: "(if resp_text resp \<noteq> [] then c_parser c (resp_text resp) else Inr VNone) = Inr d"
            by blast
          obtain res2 w2 where
            rec: "rest_call n e c (the (c_continuator c resp)) ''GET'' True kwargs ?w1 = (res2, w2)"
            by (cases "rest_call n e c (the (c_continuator c resp)) ''GET'' True kwargs ?w1")
          from Suc.IH [OF rec] obtain new where
            new: "calls w2 = calls ?w1 @ new" "heap w2 = heap ?w1"
            and ih: "\<And>i code. i < length new \<Longrightarrow>
                bad_status e (calls ?w1 @ take i new) (new ! i) = Some code \<Longrightarrow>
                Suc i = length new \<and>
                res2 = Raise (PyrestoServerResponseException (server_response_msg code))"
            by blast
          from pre Inr True more d rec Suc.prems have w': "w' = w2"
            and res: "\<And>err. res2 = Raise err \<Longrightarrow> res = Raise err"
            by (auto simp: Let_def split: res.splits prod.splits)
          have "\<forall>i<length (?rq # new). \<forall>code.
              bad_status e (calls w @ take i (?rq # new)) ((?rq # new) ! i) = Some code \<longrightarrow>
              Suc i = length (?rq # new) \<and>
              res = Raise (PyrestoServerResponseException (server_response_msg code))"
          proof (intro allI impI)
            fix i code
            assume i: "i < length (?rq # new)"
              and b: "bad_status e (calls w @ take i (?rq # new)) ((?rq # new) ! i) = Some code"
            show "Suc i = length (?rq # new) \<and>
              res = Raise (PyrestoServerResponseException (server_response_msg code))"
            proof (cases i)
              case 0
              with b ok show ?thesis by simp
            next
              case (Suc j)
              with i b have "j < length new"
                "bad_status e (calls ?w1 @ take j new) (new ! j) = Some code"
                by simp_all
              from ih [OF this] Suc res show ?thesis by simp
            qed
          qed
          with new w' show ?thesis by (intro exI [of _ "?rq # new"]) simp
        qed
      qed
    qed
  qed
qed

lemma rest_call_heap: "rest_call n e c url meth fetch_all kwargs w = (res, w') \<Longrightarrow> heap w' = heap w"
  using rest_call_aborts by blast

text \<open>
  Claim C6, as amended.  Whatever requests a call of \<open>_rest_call\<close> makes (in either
  \<open>fetch_all\<close> mode, on the first page or a later one), a request that is answered with
  a status outside 200..299 is the last one, and the call raises
  \<open>PyrestoServerResponseException\<close> with a message that names the status code.  The same
  holds for the requests of \<open>delete\<close> once the path of the instance is known.  The
  body is not part of the exception.
\<close>

theorem non_success_status_aborts:
  assumes "rest_call k e c' url' meth fetch_all kwargs v = (res, v')"
    and "inst_of w r = Some ob" and "isinstance ob c"
    and "getattr_m n e w r ''_current_path'' = (Ok (VStr url), w1)"
    and "delete_m n e c r auth w = (dres, w2)"
  shows "(\<exists>new. calls v' = calls v @ new \<and>
            (\<forall>i < length new. \<forall>code.
               bad_status e (calls v @ take i new) (new ! i) = Some code \<longrightarrow>
               Suc i = length new \<and>
               res = Raise (PyrestoServerResponseException (server_response_msg code)))) \<and>
         (\<exists>new. calls w2 = calls w1 @ new \<and>
            (\<forall>i < length new. \<forall>code.
               bad_status e (calls w1 @ take i new) (new ! i) = Some code \<longrightarrow>
               Suc i = length new \<and>
               dres = Raise (PyrestoServerResponseException (server_response_msg code))))"
proof
  from rest_call_aborts [OF assms(1)]
  show "\<exists>new. calls v' = calls v @ new \<and>
            (\<forall>i < length new. \<forall>code.
               bad_status e (calls v @ take i new) (new ! i) = Some code \<longrightarrow>
               Suc i = length new \<and>
               res = Raise (PyrestoServerResponseException (server_response_msg code)))"
    by blast
next
  obtain res3 w3 where
    rc: "rest_call n e c url ''DELETE'' True [(''auth'', normalize_auth c ob auth)] w1 = (res3, w3)"
    by (cases "rest_call n e c url ''DELETE'' True [(''auth'', normalize_auth c ob auth)] w1")
  from assms(2-5) rc have w2: "w2 = w3" and dres: "\<And>err. res3 = Raise err \<Longrightarrow> dres = Raise err"
    by (auto simp: delete_m_def decorated_def bind_def split: res.splits)
  from rest_call_aborts [OF rc] w2 dres
  show "\<exists>new. calls w2 = calls w1 @ new \<and>
            (\<forall>i < length new. \<forall>code.
               bad_status e (calls w1 @ take i new) (new ! i) = Some code \<longrightarrow>
               Suc i = length new \<and>
               dres = Raise (PyrestoServerResponseException (server_response_msg code)))"
    by blast
qed

theorem non_success_status_aborts_witness:
  "fst (delete_m 10 demo_env demo_item 1 VNone w13) =
     Raise (PyrestoServerResponseException ''Server response not OK. Response code: 404'') \<and>
   (\<exists>new. calls (snd (rest_call 1 demo_env demo_item ''/items/13/'' ''GET'' False [] w0)) =
            calls w0 @ new \<and>
      (\<forall>i < length new. \<forall>code.
         bad_status demo_env (calls w0 @ take i new) (new ! i) = Some code \<longrightarrow>
         Suc i = length new \<and>
         fst (rest_call 1 demo_env demo_item ''/items/13/'' ''GET'' False [] w0) =
           Raise (PyrestoServerResponseException (server_response_msg code)))) \<and>
   (\<exists>new. calls (snd (delete_m 10 demo_env demo_item 1 VNone w13)) =
            calls (snd (getattr_m 10 demo_env w13 1 ''_current_path'')) @ new \<and>
      (\<forall>i < length new. \<forall>code.
         bad_status demo_env
           (calls (snd (getattr_m 10 demo_env w13 1 ''_current_path'')) @ take i new) (new ! i) =
           Some code \<longrightarrow>
         Suc i = length new \<and>
         fst (delete_m 10 demo_env demo_item 1 VNone w13) =
           Raise (PyrestoServerResponseException (server_response_msg code))))"
proof -
  have h1: "rest_call 1 demo_env demo_item ''/items/13/'' ''GET'' False [] w0 =
      (fst (rest_call 1 demo_env demo_item ''/items/13/'' ''GET'' False [] w0),
       snd (rest_call 1 demo_env demo_item ''/items/13/'' ''GET'' False [] w0))"
    by simp
  have h2: "inst_of w13 1 = Some \<lparr>ocls = demo_item,
      odict = [(''_parent'', VNone), (''id'', VStr ''13''), (''_changed'', VSet [])]\<rparr>"
    by (simp add: w13_def w0_def init_m_def fresh_ref_def dict_update_def demo_item_def
        demo_class_def put_inst_def inst_of_def Let_def)
  have h3: "isinstance \<lparr>ocls = demo_item,
      odict = [(''_parent'', VNone), (''id'', VStr ''13''), (''_changed'', VSet [])]\<rparr> demo_item"
    by (simp add: isinstance_def demo_item_def demo_class_def)
  have "fst (getattr_m 10 demo_env w13 1 ''_current_path'') = Ok (VStr ''/items/13/'')"
    by code_simp
  then have h4: "getattr_m 10 demo_env w13 1 ''_current_path'' =
      (Ok (VStr ''/items/13/''), snd (getattr_m 10 demo_env w13 1 ''_current_path''))"
    by (rule pair_fstI)
  have h5: "delete_m 10 demo_env demo_item 1 VNone w13 =
      (fst (delete_m 10 demo_env demo_item 1 VNone w13),
       snd (delete_m 10 demo_env demo_item 1 VNone w13))"
    by simp
  have d: "fst (delete_m 10 demo_env demo_item 1 VNone w13) =
     Raise (PyrestoServerResponseException ''Server response not OK. Response code: 404'')"
    by code_simp
  from d non_success_status_aborts [OF h1 h2 h3 h4 h5] show ?thesis
    by blast
qed

text \<open>
  The claim as stated fails: two answers with the status 404 and different bodies raise
  the same exception, so the exception does not carry the body.
\<close>

theorem server_response_without_body:
  "fst (rest_call 1 (demo_failing ''first body'') demo_item ''/items/1/'' ''GET'' True [] w0) =
     Raise (PyrestoServerResponseException ''Server response not OK. Response code: 404'') \<and>
   fst (rest_call 1 (demo_failing ''second body'') demo_item ''/items/1/'' ''GET'' True [] w0) =
     Raise (PyrestoServerResponseException ''Server response not OK. Response code: 404'')"
  by code_simp

subsection \<open>The cache of a \<open>Many\<close> relation\<close>



subsection \<open>Unfolding the model on concrete inputs\<close>

lemmas demo_defs = demo_env_def demo_format_def demo_item_def demo_class_def demo_str_def
  demo_transport_def demo_routes_def demo_urljoin_def demo_parser_def demo_continuator_def w0_def

lemmas model_defs = init_m_def fresh_ref_def dict_update_def put_inst_def inst_of_def
  plain_lookup_def attr_of_def class_attr_def slot_def catch_attr_def bind_def
  path_template_def format_path_def store_footprint_def store_pk_vals_def ref_of_def
  setattr_m_def startswith_underscore_def dict_zip_def Let_def

subsection \<open>The fetched flag\<close>

lemma setattr_m_underscore:
  assumes "inst_of w r = Some ob" and "startswith_underscore key"
    and "key \<noteq> ''_pk_vals''" and "key \<noteq> ''_id''" and "key \<noteq> ''_footprint''"
    and "key \<noteq> ''_current_path''"
  shows "setattr_m w r key v = (Ok (), put_inst w r (ob\<lparr>odict := AList.update key v (odict ob)\<rparr>))"
  using assms by (simp add: setattr_m_def)

lemma inst_of_put_inst [simp]: "inst_of (put_inst w r ob) r = Some ob"
  by (simp add: inst_of_def put_inst_def update_conv')

lemma inst_of_put_inst_other [simp]: "r' \<noteq> r \<Longrightarrow> inst_of (put_inst w r ob) r' = inst_of w r'"
  by (simp add: inst_of_def put_inst_def update_conv')

lemma put_inst_put_inst [simp]: "put_inst (put_inst w r ob) r ob' = put_inst w r ob'"
  by (simp add: put_inst_def)

lemma calls_put_inst [simp]: "calls (put_inst w r ob) = calls w"
  by (simp add: put_inst_def)

lemma slot_update [simp]: "slot (ob\<lparr>odict := AList.update key v d\<rparr>) key = v"
  by (simp add: slot_def attr_of_def update_conv')

lemma inst_of_heap: "heap w' = heap w \<Longrightarrow> inst_of w' r = inst_of w r"
  by (simp add: inst_of_def)

lemma fetch_merge_truthy:
  assumes "truthy data" and "fetch_merge w r data = (Ok v, w')"
  shows "\<exists>ob. inst_of w' r = Some ob \<and> slot ob ''_fetched'' = VBool True"
proof -
  from assms obtain ob kvs where ob: "inst_of w r = Some ob" and data: "data = VDict kvs"
    by (auto simp: fetch_merge_def split: option.splits val.splits)
  obtain res d where rn: "rename_overlaps (c_dict (ocls ob)) (map fst kvs) (dict_update (odict ob) kvs) = (res, d)"
    by (cases "rename_overlaps (c_dict (ocls ob)) (map fst kvs) (dict_update (odict ob) kvs)")
  let ?w1 = "put_inst w r (ob\<lparr>odict := d\<rparr>)"
  have st: "setattr_m ?w1 r ''_fetched'' (VBool True) =
      (Ok (), put_inst ?w1 r (ob\<lparr>odict := d\<rparr>\<lparr>odict := AList.update ''_fetched'' (VBool True) (odict (ob\<lparr>odict := d\<rparr>))\<rparr>))"
    by (rule setattr_m_underscore) (simp_all add: startswith_underscore_def)
  from assms ob data rn st have "w' = put_inst w r (ob\<lparr>odict := AList.update ''_fetched'' (VBool True) d\<rparr>)"
    by (cases res) (auto simp: fetch_merge_def)
  then show ?thesis by simp
qed

text \<open>
  Claim C10.  Take an implicit fetch whose path has been computed and whose request has
  returned \<open>data\<close>.  If \<open>data\<close> is falsy, \<open>__fetch\<close> returns with the instance exactly
  as it was before the request, so an unfetched instance stays unfetched; hence the flag
  can only have gone from false to true when \<open>data\<close> was truthy, and after a fetch that
  returns with truthy data the flag is \<open>True\<close>.  For \<open>read\<close>: when the request returns
  falsy data, the result is \<open>None\<close> and no instance has been created.
\<close>

theorem fetched_only_on_truthy_data:
  assumes "getattr_m n e w r ''_current_path'' = (Ok (VStr url), w1)"
    and "inst_of w1 r = Some ob"
    and "rest_call n e (ocls ob) url ''GET'' True [(''auth'', slot ob ''_auth'')] w1 =
           (Ok (data, nxt), w2)"
    and "parent_path k e v (case map_of kwargs ''parent'' of Some p \<Rightarrow> p | None \<Rightarrow> VNone) =
           (Ok prefix, v1)"
    and "c_path c = VStr template"
    and "format_path e prefix template (VDict (dict_zip (c_pk c) args)) v1 = (Ok (VStr rurl), v2)"
    and "rest_call k e c rurl ''GET'' True
           [(''auth'', case map_of kwargs ''auth'' of Some a \<Rightarrow> a | None \<Rightarrow> c_auth c)] v2 =
           (Ok (rdata, rnxt), v3)"
  shows "(\<not> truthy data \<longrightarrow> fetch (Suc n) e w r = (Ok VNone, w2) \<and> inst_of w2 r = Some ob) \<and>
         (\<forall>res w3 ob3. fetch (Suc n) e w r = (res, w3) \<longrightarrow> inst_of w3 r = Some ob3 \<longrightarrow>
            \<not> truthy (slot ob ''_fetched'') \<longrightarrow> truthy (slot ob3 ''_fetched'') \<longrightarrow> truthy data) \<and>
         (truthy data \<longrightarrow> (\<forall>res w3. fetch (Suc n) e w r = (Ok res, w3) \<longrightarrow>
            (\<exists>ob3. inst_of w3 r = Some ob3 \<and> slot ob3 ''_fetched'' = VBool True))) \<and>
         (\<not> truthy rdata \<longrightarrow> read k e c args kwargs v = (Ok VNone, v3) \<and> heap v3 = heap v2)"
proof -
  have fm: "fetch (Suc n) e w r = fetch_merge w2 r data"
    using assms(1-3) by (simp add: fetch_from_def)
  have h2: "inst_of w2 r = Some ob"
    using inst_of_heap [OF rest_call_heap [OF assms(3)], of r] assms(2) by simp
  have a: "\<not> truthy data \<longrightarrow> fetch (Suc n) e w r = (Ok VNone, w2) \<and> inst_of w2 r = Some ob"
    using fm h2 by (simp add: fetch_merge_def)
  have b: "\<forall>res w3 ob3. fetch (Suc n) e w r = (res, w3) \<longrightarrow> inst_of w3 r = Some ob3 \<longrightarrow>
            \<not> truthy (slot ob ''_fetched'') \<longrightarrow> truthy (slot ob3 ''_fetched'') \<longrightarrow> truthy data"
    using a by auto
  have c: "truthy data \<longrightarrow> (\<forall>res w3. fetch (Suc n) e w r = (Ok res, w3) \<longrightarrow>
            (\<exists>ob3. inst_of w3 r = Some ob3 \<and> slot ob3 ''_fetched'' = VBool True))"
    using fm fetch_merge_truthy by auto
  have "read k e c args kwargs v =
      (if \<not> truthy rdata then (Ok VNone, v3)
       else bind (construct v3 c
                   (Some (case map_of kwargs ''parent'' of Some p \<Rightarrow> p | None \<Rightarrow> VNone)) rdata)
              (\<lambda>r w4.
                 bind (setattr_m w4 r ''_pk_vals'' (VTuple args)) (\<lambda>u w5.
                 bind (setattr_m w5 r ''_fetched'' (VBool True)) (\<lambda>u w6.
                 if truthy (case map_of kwargs ''auth'' of Some a \<Rightarrow> a | None \<Rightarrow> c_auth c) then
                   bind (setattr_m w6 r ''_auth''
                           (case map_of kwargs ''auth'' of Some a \<Rightarrow> a | None \<Rightarrow> c_auth c))
                     (\<lambda>u w7. (Ok (VRef r), w7))
                 else (Ok (VRef r), w6)))))"
    unfolding read_def Let_def assms(4) bind_Ok assms(5) val.case assms(6) assms(7) prod.case
    by (rule refl)
  then have d: "\<not> truthy rdata \<longrightarrow> read k e c args kwargs v = (Ok VNone, v3) \<and> heap v3 = heap v2"
    using rest_call_heap [OF assms(7)] by simp
  from a b c d show ?thesis by blast
qed

theorem fetched_only_on_truthy_data_witness:
  "fetch 11 demo_env w7 1 =
     (Ok VNone,
      snd (rest_call 10 demo_env demo_item ''/items/7/'' ''GET'' True [(''auth'', VNone)]
             (snd (getattr_m 10 demo_env w7 1 ''_current_path'')))) \<and>
   inst_of (snd (rest_call 10 demo_env demo_item ''/items/7/'' ''GET'' True [(''auth'', VNone)]
                   (snd (getattr_m 10 demo_env w7 1 ''_current_path'')))) 1 =
     inst_of (snd (getattr_m 10 demo_env w7 1 ''_current_path'')) 1 \<and>
   read 10 demo_env demo_item [VStr ''7''] [] w0 =
     (Ok VNone,
      snd (rest_call 10 demo_env demo_item ''/items/7/'' ''GET'' True [(''auth'', VNone)] w0)) \<and>
   heap (snd (rest_call 10 demo_env demo_item ''/items/7/'' ''GET'' True [(''auth'', VNone)] w0)) =
     heap w0"
proof -
  let ?w1 = "snd (getattr_m 10 demo_env w7 1 ''_current_path'')"
  let ?ob = "\<lparr>ocls = demo_item,
      odict = [(''_parent'', VNone), (''id'', VStr ''7''), (''_changed'', VSet []),
               (''_Model__pk_vals'', VTuple [VStr ''7'']),
               (''_Model__footprint'', VDict [(''id'', VStr ''7''), (''self'', VRef 1)])]\<rparr>"
  let ?rc = "rest_call 10 demo_env demo_item ''/items/7/'' ''GET'' True [(''auth'', VNone)]"
  have "fst (getattr_m 10 demo_env w7 1 ''_current_path'') = Ok (VStr ''/items/7/'')"
    by code_simp
  then have h1: "getattr_m 10 demo_env w7 1 ''_current_path'' = (Ok (VStr ''/items/7/''), ?w1)"
    by (rule pair_fstI)
  have h2: "inst_of ?w1 1 = Some ?ob"
    by (simp add: w7_def demo_defs model_defs eval_nat_numeral)
  have au: "slot ?ob ''_auth'' = VNone"
    by (simp add: slot_def attr_of_def class_attr_def demo_item_def demo_class_def)
  have "fst (?rc ?w1) = Ok (VNone, None)"
    by code_simp
  then have "?rc ?w1 = (Ok (VNone, None), snd (?rc ?w1))"
    by (rule pair_fstI)
  with au have h3: "rest_call 10 demo_env (ocls ?ob) ''/items/7/'' ''GET'' True
      [(''auth'', slot ?ob ''_auth'')] ?w1 = (Ok (VNone, None), snd (?rc ?w1))"
    by simp
  have h4: "parent_path 10 demo_env w0 (case map_of [] ''parent'' of Some p \<Rightarrow> p | None \<Rightarrow> VNone) =
      (Ok (VStr []), w0)"
    by (simp add: parent_path_def ref_of_def)
  have h5: "c_path demo_item = VStr ''/items/{id}/''"
    by (simp add: demo_item_def demo_class_def)
  have h6: "format_path demo_env (VStr []) ''/items/{id}/''
      (VDict (dict_zip (c_pk demo_item) [VStr ''7''])) w0 = (Ok (VStr ''/items/7/''), w0)"
    by (simp add: format_path_def demo_env_def demo_format_def dict_zip_def dict_update_def
        demo_item_def demo_class_def demo_str_def)
  have "fst (?rc w0) = Ok (VNone, None)"
    by code_simp
  then have "?rc w0 = (Ok (VNone, None), snd (?rc w0))"
    by (rule pair_fstI)
  then have h7: "rest_call 10 demo_env demo_item ''/items/7/'' ''GET'' True
      [(''auth'', case map_of [] ''auth'' of Some a \<Rightarrow> a | None \<Rightarrow> c_auth demo_item)] w0 =
      (Ok (VNone, None), snd (?rc w0))"
    by (simp add: demo_item_def demo_class_def)
  from fetched_only_on_truthy_data [OF h1 h2 h3 h4 h5 h6 h7] h2 show ?thesis
    by simp
qed

subsection \<open>Attribute access on an unfetched instance\<close>

text \<open>
  With the flag set, a name that is neither in the instance dictionary nor on the class
  raises \<open>AttributeError\<close> at once: no request, no change of state.
\<close>

lemma getattr_m_fetched_missing:
  assumes "inst_of w r = Some ob" and "truthy (slot ob ''_fetched'')"
    and "attr_of ob name = None"
    and "name \<noteq> ''_id''" and "name \<noteq> ''_pk_vals''" and "name \<noteq> ''_footprint''"
    and "name \<noteq> ''_current_path''"
  shows "getattr_m (Suc (Suc n)) e w r name = (Raise AttributeError, w)"
  using assms by (simp add: plain_lookup_def catch_attr_def)

text \<open>
  Claim C1 at an input where the code departs from it.  The item 7 is unfetched and the
  server answers its GET with status 200 and an empty body.  Access to the missing
  attribute \<open>name\<close> fetches, finds the flag still unset, and fetches again: with a
  recursion limit of 40 it makes 15 requests, with a limit of 80 it makes 35, and it
  ends in the interpreter's recursion error, never in \<open>AttributeError\<close>.  When the
  body holds the item (item 42), the same access makes one request.
\<close>

theorem getattr_empty_body_refetches:
  "fst (getattr_m 40 demo_env w7 1 ''name'') = Raise RecursionError \<and>
   length (calls (snd (getattr_m 40 demo_env w7 1 ''name''))) = 15 \<and>
   fst (getattr_m 80 demo_env w7 1 ''name'') = Raise RecursionError \<and>
   length (calls (snd (getattr_m 80 demo_env w7 1 ''name''))) = 35 \<and>
   fst (getattr_m 40 demo_env w42 1 ''name'') = Ok (VStr ''x'') \<and>
   length (calls (snd (getattr_m 40 demo_env w42 1 ''name''))) = 1 \<and>
   fst (getattr_m 40 demo_env w42 1 ''colour'') = Raise AttributeError \<and>
   length (calls (snd (getattr_m 40 demo_env w42 1 ''colour''))) = 1"
  by (intro conjI; code_simp)

subsection \<open>The footprint of a composite key\<close>

text \<open>
  Claim C8 at an input where the code departs from it.  \<open>Pos\<close> has the key fields
  \<open>merchant\<close> and \<open>id\<close>; \<open>read\<close> binds the values \<open>acme\<close> and \<open>42\<close>.  The getter of
  \<open>_pk_vals\<close> then rebuilds the tuple from \<open>None\<close> and the last component, so the
  footprint maps \<open>merchant\<close> to \<open>None\<close> and the current path is formatted with it.
\<close>

theorem footprint_drops_bound_key:
  "fst (read 10 demo_env demo_pos [VStr ''acme'', VStr ''42''] [] w0) = Ok (VRef 1) \<and>
   map_option (\<lambda>ob. slot ob ''_Model__pk_vals'')
     (inst_of (snd (read 10 demo_env demo_pos [VStr ''acme'', VStr ''42''] [] w0)) 1) =
     Some (VTuple [VStr ''acme'', VStr ''42'']) \<and>
   fst (getattr_m 10 demo_env (snd (read 10 demo_env demo_pos [VStr ''acme'', VStr ''42''] [] w0))
          1 ''_footprint'') =
     Ok (VDict [(''merchant'', VNone), (''id'', VStr ''42''), (''self'', VRef 1)]) \<and>
   fst (getattr_m 10 demo_env (snd (read 10 demo_env demo_pos [VStr ''acme'', VStr ''42''] [] w0))
          1 ''_current_path'') =
     Ok (VStr ''/m/None/pos/42/'')"
  by (intro conjI; code_simp)

subsection \<open>Resolution of a \<open>Foreign\<close> relation\<close>

text \<open>
  Claim C5 at an input where the code departs from it.  A commit refers to item 42 by the
  property \<open>item_id\<close>; the relation is in the referenced mode and its target class is a
  plain model class, which has \<open>read\<close> and no \<open>get\<close>.  The access raises
  \<open>AttributeError\<close> before any key is extracted: nothing is read, no request is made.
  For a target class that defines \<open>get\<close> as an alias of \<open>read\<close> the same access makes one
  request and returns the item; the embedded mode constructs the target without a request.
\<close>

theorem foreign_referenced_has_no_get:
  "fst (foreign_get 10 demo_env demo_foreign (Some 1) w_commit) = Raise AttributeError \<and>
   calls (snd (snd (foreign_get 10 demo_env demo_foreign (Some 1) w_commit))) = [] \<and>
   f_cache (fst (snd (foreign_get 10 demo_env demo_foreign (Some 1) w_commit))) = [] \<and>
   fst (foreign_get 10 demo_env (demo_foreign\<lparr>f_model := demo_item\<lparr>c_get := True\<rparr>\<rparr>)
          (Some 1) w_commit) = Ok (VRef 2) \<and>
   calls (snd (snd (foreign_get 10 demo_env (demo_foreign\<lparr>f_model := demo_item\<lparr>c_get := True\<rparr>\<rparr>)
          (Some 1) w_commit))) =
     [\<lparr>rq_method = ''get'', rq_url = ''http://api/items/42/'', rq_kwargs = [(''auth'', VNone)]\<rparr>] \<and>
   fst (foreign_get 10 demo_env demo_embedded (Some 1) w_commit) = Ok (VRef 2) \<and>
   calls (snd (snd (foreign_get 10 demo_env demo_embedded (Some 1) w_commit))) = []"
  by (intro conjI; code_simp)

subsection \<open>Equality of instances\<close>

lemma bind_Ok_iff:
  "bind m f = (Ok v, w') \<longleftrightarrow> (\<exists>x w1. m = (Ok x, w1) \<and> f x w1 = (Ok v, w'))"
  by (cases m; cases "fst m") (auto simp: bind_def)

lemma fold_max_ge: "a \<le> fold max xs (a :: nat)"
  by (induction xs arbitrary: a) (auto intro: order_trans [OF max.cobounded2])

lemma fold_max_mem: "x \<in> set xs \<Longrightarrow> x \<le> fold max xs (a :: nat)"
proof (induction xs arbitrary: a)
  case Nil
  then show ?case by simp
next
  case (Cons y ys)
  show ?case
  proof (cases "x = y")
    case True
    have "x \<le> max x a" by simp
    also have "\<dots> \<le> fold max ys (max x a)" by (rule fold_max_ge)
    finally show ?thesis using True by simp
  next
    case False
    with Cons show ?thesis by simp
  qed
qed

lemma fresh_ref_unused: "map_of (heap w) (fresh_ref w) = None"
proof (rule ccontr)
  assume "map_of (heap w) (fresh_ref w) \<noteq> None"
  then have "fresh_ref w \<in> set (map fst (heap w))"
    by (auto simp: map_of_eq_None_iff)
  then have "fresh_ref w \<le> fold max (map fst (heap w)) 0"
    by (rule fold_max_mem)
  then show False by (simp add: fresh_ref_def)
qed

lemma inst_of_fresh_ref: "inst_of w (fresh_ref w) = None"
  by (simp add: inst_of_def fresh_ref_unused)

lemma setattr_m_frame:
  "setattr_m w r key v = (res, w') \<Longrightarrow> r' \<noteq> r \<Longrightarrow> inst_of w' r' = inst_of w r'"
  by (auto simp: setattr_m_def split: option.splits res.splits if_splits)

lemma init_m_result:
  assumes "init_m w c parent kwargs = (Ok r, w')"
  shows "r = fresh_ref w \<and> (\<exists>ob. inst_of w' r = Some ob \<and> ocls ob = c) \<and>
         (\<forall>r'. r' \<noteq> r \<longrightarrow> inst_of w' r' = inst_of w r')"
  using assms by (auto simp: init_m_def Let_def split: prod.splits res.splits)

lemma construct_result:
  assumes "construct w c parent_arg data = (Ok r, w')"
  shows "r = fresh_ref w \<and> (\<exists>ob. inst_of w' r = Some ob \<and> ocls ob = c) \<and>
         (\<forall>r'. r' \<noteq> r \<longrightarrow> inst_of w' r' = inst_of w r')"
  using assms init_m_result
  by (auto simp: construct_def split: val.splits option.splits if_splits)

lemma setattr_m_pk_vals:
  assumes "setattr_m w r ''_pk_vals'' (VTuple args) = (Ok u, w')"
    and "inst_of w r = Some ob"
  shows "\<exists>ob'. inst_of w' r = Some ob' \<and> ocls ob' = ocls ob \<and>
           map_of (odict ob') ''_Model__pk_vals'' = Some (VTuple args)"
  using assms
  by (auto simp: setattr_m_def startswith_underscore_def pk_vals_setter_def update_conv'
      split: res.splits if_splits)

lemma setattr_m_keeps:
  assumes "setattr_m w r key v = (Ok u, w')" and "inst_of w r = Some ob"
    and "startswith_underscore key" and "key \<noteq> ''_pk_vals''" and "key \<noteq> k"
  shows "\<exists>ob'. inst_of w' r = Some ob' \<and> ocls ob' = ocls ob \<and>
           map_of (odict ob') k = map_of (odict ob) k"
  using assms
  by (auto simp: setattr_m_def update_conv' split: res.splits if_splits)

text \<open>What a successful \<open>read\<close> leaves behind.\<close>

lemma read_result:
  assumes "read n e c args kwargs w = (Ok (VRef r), w')"
  shows "\<exists>ob. inst_of w' r = Some ob \<and> ocls ob = c \<and>
           map_of (odict ob) ''_Model__pk_vals'' = Some (VTuple args)"
proof -
  let ?auth = "case map_of kwargs ''auth'' of Some a \<Rightarrow> a | None \<Rightarrow> c_auth c"
  let ?parent = "case map_of kwargs ''parent'' of Some p \<Rightarrow> p | None \<Rightarrow> VNone"
  from assms obtain prefix w1 where
    "parent_path n e w ?parent = (Ok prefix, w1)"
    and a1: "(case c_path c of
           VStr template \<Rightarrow>
             bind (format_path e prefix template (VDict (dict_zip (c_pk c) args)) w1) (\<lambda>path w2.
             case path of
               VStr url \<Rightarrow>
                 bind (rest_call n e c url ''GET'' True [(''auth'', ?auth)] w2) (\<lambda>(data, next_url) w3.
                 if \<not> truthy data then (Ok VNone, w3)
                 else
                   bind (construct w3 c (Some ?parent) data) (\<lambda>r w4.
                   bind (setattr_m w4 r ''_pk_vals'' (VTuple args)) (\<lambda>u w5.
                   bind (setattr_m w5 r ''_fetched'' (VBool True)) (\<lambda>u w6.
                   if truthy ?auth then
                     bind (setattr_m w6 r ''_auth'' ?auth) (\<lambda>u w7. (Ok (VRef r), w7))
                   else (Ok (VRef r), w6)))))
             | _ \<Rightarrow> (Raise TypeError, w2))
         | _ \<Rightarrow> (Raise AttributeError, w1)) = (Ok (VRef r), w')"
    unfolding read_def Let_def bind_Ok_iff by blast
  from a1 obtain template where "c_path c = VStr template"
    by (cases "c_path c") auto
  with a1 obtain path w2 where
    "format_path e prefix template (VDict (dict_zip (c_pk c) args)) w1 = (Ok path, w2)"
    and a2: "(case path of
               VStr url \<Rightarrow>
                 bind (rest_call n e c url ''GET'' True [(''auth'', ?auth)] w2) (\<lambda>(data, next_url) w3.
                 if \<not> truthy data then (Ok VNone, w3)
                 else
                   bind (construct w3 c (Some ?parent) data) (\<lambda>r w4.
                   bind (setattr_m w4 r ''_pk_vals'' (VTuple args)) (\<lambda>u w5.
                   bind (setattr_m w5 r ''_fetched'' (VBool True)) (\<lambda>u w6.
                   if truthy ?auth then
                     bind (setattr_m w6 r ''_auth'' ?auth) (\<lambda>u w7. (Ok (VRef r), w7))
                   else (Ok (VRef r), w6)))))
             | _ \<Rightarrow> (Raise TypeError, w2)) = (Ok (VRef r), w')"
    by (auto simp: bind_Ok_iff)
  from a2 obtain url where "path = VStr url"
    by (cases path) auto
  with a2 obtain data nxt w3 where
    rc: "rest_call n e c url ''GET'' True [(''auth'', ?auth)] w2 = (Ok (data, nxt), w3)"
    and rest: "(if \<not> truthy data then (Ok VNone, w3)
       else bind (construct w3 c (Some ?parent) data) (\<lambda>r w4.
            bind (setattr_m w4 r ''_pk_vals'' (VTuple args)) (\<lambda>u w5.
            bind (setattr_m w5 r ''_fetched'' (VBool True)) (\<lambda>u w6.
            if truthy ?auth then bind (setattr_m w6 r ''_auth'' ?auth) (\<lambda>u w7. (Ok (VRef r), w7))
            else (Ok (VRef r), w6))))) = (Ok (VRef r), w')"
    by (auto simp: bind_Ok_iff)
  from rest have td: "truthy data" by (auto split: if_splits)
  with rest obtain r0 w4 u5 w5 u6 w6 where
    cs: "construct w3 c (Some ?parent) data = (Ok r0, w4)"
    and s5: "setattr_m w4 r0 ''_pk_vals'' (VTuple args) = (Ok u5, w5)"
    and s6: "setattr_m w5 r0 ''_fetched'' (VBool True) = (Ok u6, w6)"
    and fin: "(if truthy ?auth then bind (setattr_m w6 r0 ''_auth'' ?auth) (\<lambda>u w7. (Ok (VRef r0), w7))
            else (Ok (VRef r0), w6)) = (Ok (VRef r), w')"
    by (auto simp: bind_Ok_iff)
  from construct_result [OF cs] obtain ob4 where ob4: "inst_of w4 r0 = Some ob4" "ocls ob4 = c"
    by blast
  from setattr_m_pk_vals [OF s5 ob4(1)] ob4(2) obtain ob5 where
    ob5: "inst_of w5 r0 = Some ob5" "ocls ob5 = c"
      "map_of (odict ob5) ''_Model__pk_vals'' = Some (VTuple args)"
    by auto
  from setattr_m_keeps [OF s6 ob5(1), of "''_Model__pk_vals''"] ob5 obtain ob6 where
    ob6: "inst_of w6 r0 = Some ob6" "ocls ob6 = c"
      "map_of (odict ob6) ''_Model__pk_vals'' = Some (VTuple args)"
    by (auto simp: startswith_underscore_def)
  show ?thesis
  proof (cases "truthy ?auth")
    case False
    with fin have "(Ok (VRef r0), w6) = (Ok (VRef r), w')"
      by (simp only: if_False)
    with ob6 show ?thesis by auto
  next
    case True
    with fin have "bind (setattr_m w6 r0 ''_auth'' ?auth) (\<lambda>u w7. (Ok (VRef r0), w7)) =
        (Ok (VRef r), w')"
      by (simp only: if_True)
    then obtain u7 w7 where "setattr_m w6 r0 ''_auth'' ?auth = (Ok u7, w7)"
      and "(Ok (VRef r0), w7) = (Ok (VRef r), w')"
      unfolding bind_Ok_iff by blast
    then have s7: "setattr_m w6 r0 ''_auth'' ?auth = (Ok u7, w')" and "r = r0"
      by simp_all
    from setattr_m_keeps [OF s7 ob6(1), of "''_Model__pk_vals''"] ob6 \<open>r = r0\<close>
    show ?thesis by (auto simp: startswith_underscore_def)
  qed
qed

text \<open>A \<open>read\<close> without a parent leaves the instances that exist as they are.\<close>

lemma keeps_refl [simp]: "keeps w w"
  by (simp add: keeps_def)

lemma keeps_trans: "keeps w w1 \<Longrightarrow> keeps w1 w2 \<Longrightarrow> keeps w w2"
  by (simp add: keeps_def)

lemma keeps_heap: "heap w' = heap w \<Longrightarrow> keeps w w'"
  by (simp add: keeps_def inst_of_def)

lemma keeps_put_inst: "inst_of w r = None \<Longrightarrow> keeps w (put_inst w r ob)"
  unfolding keeps_def
proof (intro allI impI)
  fix r' ob'
  assume "inst_of w r = None" and "inst_of w r' = Some ob'"
  then have "r' \<noteq> r" by auto
  with \<open>inst_of w r' = Some ob'\<close> show "inst_of (put_inst w r ob) r' = Some ob'" by simp
qed

lemma setattr_m_keeps_others:
  assumes "setattr_m w1 r key v = (res, w2)" and "keeps w w1" and "inst_of w r = None"
  shows "keeps w w2"
  unfolding keeps_def
proof (intro allI impI)
  fix r' ob
  assume a: "inst_of w r' = Some ob"
  with assms(3) have "r' \<noteq> r" by auto
  from setattr_m_frame [OF assms(1) this] a assms(2) show "inst_of w2 r' = Some ob"
    by (simp add: keeps_def)
qed

lemma init_m_keeps:
  assumes "init_m w c parent kwargs = (res, w')"
  shows "keeps w w' \<and> (\<forall>r. res = Ok r \<longrightarrow> inst_of w r = None)"
  using assms
  by (auto simp: init_m_def Let_def inst_of_fresh_ref keeps_put_inst split: prod.splits res.splits)

lemma construct_keeps:
  assumes "construct w c parent_arg data = (res, w')"
  shows "keeps w w' \<and> (\<forall>r. res = Ok r \<longrightarrow> inst_of w r = None)"
  using assms
  by (auto simp: construct_def split: val.splits option.splits if_splits dest: init_m_keeps)

lemma bind_cases:
  assumes "bind m f = (res, w')"
  obtains err where "m = (Raise err, w')" "res = Raise err"
  | x w1 where "m = (Ok x, w1)" "f x w1 = (res, w')"
  using assms by (cases m; cases "fst m") (auto simp: bind_def)

lemma read_frame:
  assumes "read n e c args kwargs w = (res, w')" and "map_of kwargs ''parent'' = None"
  shows "keeps w w'"
proof -
  let ?auth = "case map_of kwargs ''auth'' of Some a \<Rightarrow> a | None \<Rightarrow> c_auth c"
  have pp: "parent_path n e w VNone = (Ok (VStr []), w)"
    by (simp add: parent_path_def ref_of_def)
  show ?thesis
  proof (cases "c_path c")
    case (VStr template)
    show ?thesis
    proof (cases "format e template (dict_zip (c_pk c) args)")
      case (Inl err)
      with assms pp VStr have "w' = w" by (simp add: read_def format_path_def)
      then show ?thesis by simp
    next
      case (Inr url)
      with assms pp VStr have b: "bind (rest_call n e c url ''GET'' True [(''auth'', ?auth)] w)
          (\<lambda>(data, next_url) w3.
             if \<not> truthy data then (Ok VNone, w3)
             else
               bind (construct w3 c (Some VNone) data) (\<lambda>r w4.
               bind (setattr_m w4 r ''_pk_vals'' (VTuple args)) (\<lambda>u w5.
               bind (setattr_m w5 r ''_fetched'' (VBool True)) (\<lambda>u w6.
               if truthy ?auth then
                 bind (setattr_m w6 r ''_auth'' ?auth) (\<lambda>u w7. (Ok (VRef r), w7))
               else (Ok (VRef r), w6))))) = (res, w')"
        by (simp add: read_def format_path_def Let_def)
      from b show ?thesis
      proof (cases rule: bind_cases)
        case (1 err)
        from rest_call_heap [OF 1(1)] show ?thesis by (rule keeps_heap)
      next
        case (2 x w3)
        obtain data nxt where x: "x = (data, nxt)" by (cases x)
        from rest_call_heap [OF 2(1)] have k3: "keeps w w3" by (rule keeps_heap)
        show ?thesis
        proof (cases "truthy data")
          case False
          with 2(2) x have "w' = w3" by simp
          with k3 show ?thesis by simp
        next
          case True
          with 2(2) x have c: "bind (construct w3 c (Some VNone) data) (\<lambda>r w4.
               bind (setattr_m w4 r ''_pk_vals'' (VTuple args)) (\<lambda>u w5.
               bind (setattr_m w5 r ''_fetched'' (VBool True)) (\<lambda>u w6.
               if truthy ?auth then
                 bind (setattr_m w6 r ''_auth'' ?auth) (\<lambda>u w7. (Ok (VRef r), w7))
               else (Ok (VRef r), w6)))) = (res, w')"
            by simp
          from c show ?thesis
          proof (cases rule: bind_cases)
            case (1 err)
            from construct_keeps [OF 1(1)] k3 show ?thesis by (blast intro: keeps_trans)
          next
            case (2 r0 w4)
            from construct_keeps [OF 2(1)] have k4: "keeps w3 w4" and fr: "inst_of w3 r0 = None"
              by auto
            from 2(2) show ?thesis
            proof (cases rule: bind_cases)
              case (1 err)
              from setattr_m_keeps_others [OF 1(1) k4 fr] k3 show ?thesis
                by (blast intro: keeps_trans)
            next
              case (2 u5 w5)
              from setattr_m_keeps_others [OF 2(1) k4 fr] have k5: "keeps w3 w5" .
              from 2(2) show ?thesis
              proof (cases rule: bind_cases)
                case (1 err)
                from setattr_m_keeps_others [OF 1(1) k5 fr] k3 show ?thesis
                  by (blast intro: keeps_trans)
              next
                case (2 u6 w6)
                from setattr_m_keeps_others [OF 2(1) k5 fr] have k6: "keeps w3 w6" .
                show ?thesis
                proof (cases "truthy ?auth")
                  case False
                  with 2(2) have "(Ok (VRef r0), w6) = (res, w')" by (simp only: if_False)
                  with k6 k3 show ?thesis by (auto intro: keeps_trans)
                next
                  case True
                  with 2(2) have "bind (setattr_m w6 r0 ''_auth'' ?auth) (\<lambda>u w7. (Ok (VRef r0), w7)) =
                      (res, w')"
                    by (simp only: if_True)
                  then show ?thesis
                  proof (cases rule: bind_cases)
                    case (1 err)
                    from setattr_m_keeps_others [OF 1(1) k6 fr] k3 show ?thesis
                      by (blast intro: keeps_trans)
                  next
                    case (2 u7 w7)
                    then have "setattr_m w6 r0 ''_auth'' ?auth = (Ok u7, w')" by simp
                    from setattr_m_keeps_others [OF this k6 fr] k3 show ?thesis
                      by (blast intro: keeps_trans)
                  qed
                qed
              qed
            qed
          qed
        qed
      qed
    qed
  qed (use assms pp in \<open>simp_all add: read_def\<close>)
qed

lemma py_eq_refl: "wf_val v \<Longrightarrow> py_eq v v"
proof (induction v)
  case (VList xs)
  then show ?case by (auto intro: list.rel_refl_strong)
next
  case (VTuple xs)
  then show ?case by (auto intro: list.rel_refl_strong)
next
  case (VDict kvs)
  have "case map_of kvs k of None \<Rightarrow> False | Some v' \<Rightarrow> py_eq v v'" if "(k, v) \<in> set kvs" for k v
  proof -
    from that VDict.prems have "map_of kvs k = Some v" by simp
    moreover from that VDict.prems have "wf_val v" by auto
    with that VDict.IH have "py_eq v v" by fastforce
    ultimately show ?thesis by simp
  qed
  then show ?case by auto
qed simp_all

text \<open>With a bound key tuple, \<open>_id\<close> is its last component and reading it changes nothing.\<close>

lemma getattr_m_id_bound:
  assumes "inst_of w a = Some oa" and "slot oa ''_Model__pk_vals'' = VTuple pa" and "pa \<noteq> []"
  shows "getattr_m (Suc (Suc n)) e w a ''_id'' = (Ok (last pa), w)"
  using assms by (simp add: catch_attr_def)

text \<open>
  Claim C7.  Let \<open>a\<close> and \<open>b\<close> be instances whose classes are in their own ancestor
  lists, subclassing being antisymmetric.  If they are of the same class, \<open>a == b\<close> is
  the comparison of the two values of \<open>_id\<close> (the final key component) and of nothing
  else; if they are not, it is false and no key is looked at.  Two instances that \<open>read\<close>
  returned for the same key values compare equal (the second \<open>read\<close> without a parent, the
  last key value a well-formed value).
\<close>

theorem equals_same_class_and_key:
  assumes "inst_of w a = Some oa" and "inst_of w b = Some ob"
    and "c_name (ocls oa) \<in> set (c_mro (ocls oa))" and "c_name (ocls ob) \<in> set (c_mro (ocls ob))"
    and "c_name (ocls oa) \<in> set (c_mro (ocls ob)) \<Longrightarrow> c_name (ocls ob) \<in> set (c_mro (ocls oa)) \<Longrightarrow>
           c_name (ocls oa) = c_name (ocls ob)"
    and "getattr_m n e w a ''_id'' = (Ok ia, w1)" and "getattr_m n e w1 b ''_id'' = (Ok ib, w2)"
    and "read k e c args kwargs v = (Ok (VRef r1), v1)"
    and "read k' e c args kwargs' v1 = (Ok (VRef r2), v2)"
    and "map_of kwargs' ''parent'' = None"
    and "c_name c \<in> set (c_mro c)" and "args \<noteq> []" and "wf_val (last args)"
  shows "equals n e w a b =
           (if c_name (ocls oa) = c_name (ocls ob) then (Ok (VBool (py_eq ia ib)), w2)
            else (Ok (VBool False), w)) \<and>
         equals (Suc (Suc m)) e v2 r1 r2 = (Ok (VBool True), v2)"
proof
  show "equals n e w a b =
           (if c_name (ocls oa) = c_name (ocls ob) then (Ok (VBool (py_eq ia ib)), w2)
            else (Ok (VBool False), w))"
  proof (cases "c_name (ocls oa) = c_name (ocls ob)")
    case True
    with assms(1-4,6,7) show ?thesis
      by (auto simp: equals_def eq_m_def ref_of_def isinstance_def)
  next
    case False
    show ?thesis
    proof (cases "c_name (ocls oa) \<in> set (c_mro (ocls ob))")
      case True
      with False assms(5) have "c_name (ocls ob) \<notin> set (c_mro (ocls oa))" by blast
      with True False assms(1,2) show ?thesis
        by (simp add: equals_def eq_m_def ref_of_def isinstance_def)
    next
      case notsub: False
      with False assms(1,2) show ?thesis
        by (simp add: equals_def eq_m_def ref_of_def isinstance_def)
    qed
  qed
next
  from read_result [OF assms(8)] obtain o1 where
    o1: "inst_of v1 r1 = Some o1" "ocls o1 = c"
      "map_of (odict o1) ''_Model__pk_vals'' = Some (VTuple args)"
    by blast
  from read_frame [OF assms(9,10)] o1(1) have o1': "inst_of v2 r1 = Some o1"
    by (simp add: keeps_def)
  from read_result [OF assms(9)] obtain o2 where
    o2: "inst_of v2 r2 = Some o2" "ocls o2 = c"
      "map_of (odict o2) ''_Model__pk_vals'' = Some (VTuple args)"
    by blast
  from o1(3) o2(3) have s: "slot o1 ''_Model__pk_vals'' = VTuple args"
    "slot o2 ''_Model__pk_vals'' = VTuple args"
    by (simp_all add: slot_def attr_of_def)
  have i1: "getattr_m (Suc (Suc m)) e v2 r1 ''_id'' = (Ok (last args), v2)"
    using o1' s(1) assms(12) by (rule getattr_m_id_bound)
  have i2: "getattr_m (Suc (Suc m)) e v2 r2 ''_id'' = (Ok (last args), v2)"
    using o2(1) s(2) assms(12) by (rule getattr_m_id_bound)
  from o1' o2 o1(2) assms(11) i1 i2 py_eq_refl [OF assms(13)]
  show "equals (Suc (Suc m)) e v2 r1 r2 = (Ok (VBool True), v2)"
    by (simp add: equals_def eq_m_def ref_of_def isinstance_def)
qed

theorem equals_same_class_and_key_witness:
  "read 10 demo_env demo_item [VStr ''42''] [] w0 =
     (Ok (VRef 1), snd (read 10 demo_env demo_item [VStr ''42''] [] w0)) \<and>
   read 10 demo_env demo_item [VStr ''42''] [] (snd (read 10 demo_env demo_item [VStr ''42''] [] w0)) =
     (Ok (VRef 2),
      snd (read 10 demo_env demo_item [VStr ''42''] []
             (snd (read 10 demo_env demo_item [VStr ''42''] [] w0)))) \<and>
   equals (Suc (Suc 0)) demo_env
       (snd (read 10 demo_env demo_item [VStr ''42''] []
               (snd (read 10 demo_env demo_item [VStr ''42''] [] w0)))) 1 2 =
     (Ok (VBool True),
      snd (read 10 demo_env demo_item [VStr ''42''] []
             (snd (read 10 demo_env demo_item [VStr ''42''] [] w0))))"
proof -
  let ?v1 = "snd (read 10 demo_env demo_item [VStr ''42''] [] w0)"
  let ?v2 = "snd (read 10 demo_env demo_item [VStr ''42''] [] ?v1)"
  have "fst (read 10 demo_env demo_item [VStr ''42''] [] w0) = Ok (VRef 1)"
    by code_simp
  then have r1: "read 10 demo_env demo_item [VStr ''42''] [] w0 = (Ok (VRef 1), ?v1)"
    by (rule pair_fstI)
  have "fst (read 10 demo_env demo_item [VStr ''42''] [] ?v1) = Ok (VRef 2)"
    by code_simp
  then have r2: "read 10 demo_env demo_item [VStr ''42''] [] ?v1 = (Ok (VRef 2), ?v2)"
    by (rule pair_fstI)
  have np: "map_of ([] :: (string \<times> val) list) ''parent'' = None"
    by simp
  from read_result [OF r1] obtain o1 where
    o1: "inst_of ?v1 1 = Some o1" "ocls o1 = demo_item"
      "map_of (odict o1) ''_Model__pk_vals'' = Some (VTuple [VStr ''42''])"
    by blast
  from read_frame [OF r2 np] o1(1) have o1': "inst_of ?v2 1 = Some o1"
    by (simp add: keeps_def)
  from read_result [OF r2] obtain o2 where
    o2: "inst_of ?v2 2 = Some o2" "ocls o2 = demo_item"
      "map_of (odict o2) ''_Model__pk_vals'' = Some (VTuple [VStr ''42''])"
    by blast
  have mro: "c_name demo_item \<in> set (c_mro demo_item)"
    by (simp add: demo_item_def demo_class_def)
  from o1(3) have i1: "getattr_m (Suc (Suc 0)) demo_env ?v2 1 ''_id'' = (Ok (VStr ''42''), ?v2)"
    using getattr_m_id_bound [OF o1', of "[VStr ''42'']" 0 demo_env]
    by (simp add: slot_def attr_of_def)
  from o2(3) have i2: "getattr_m (Suc (Suc 0)) demo_env ?v2 2 ''_id'' = (Ok (VStr ''42''), ?v2)"
    using getattr_m_id_bound [OF o2(1), of "[VStr ''42'']" 0 demo_env]
    by (simp add: slot_def attr_of_def)
  have "equals (Suc (Suc 0)) demo_env ?v2 1 2 =
      (if c_name (ocls o1) = c_name (ocls o2) then (Ok (VBool (py_eq (VStr ''42'') (VStr ''42''))), ?v2)
       else (Ok (VBool False), ?v2))"
    using equals_same_class_and_key [OF o1' o2(1) _ _ _ i1 i2 r1 r2 np mro, of 0] o1(2) o2(2) mro
    by simp
  with o1(2) o2(2) r1 r2 show ?thesis by simp
qed

text \<open>
  An item and an instance of a subclass of its class, both with the key 42: the method
  \<open>__eq__\<close> of the item accepts the other one (\<open>isinstance\<close>), but \<open>==\<close> lets the
  subclass answer first, and it refuses in either order of the operands.
\<close>

lemma equals_subclass_demo:
  "fst (eq_m 10 demo_env w_pair 1 (VRef 2)) = Ok (VBool True) \<and>
   fst (equals 10 demo_env w_pair 1 2) = Ok (VBool False) \<and>
   fst (equals 10 demo_env w_pair 2 1) = Ok (VBool False)"
  by (intro conjI; code_simp)

subsection \<open>Update with PATCH\<close>








end
